theory Spec2Isabelle
  imports Complex_Main "HOL-Library.Multiset"
begin

section \<open>Python values\<close>

text \<open>
  The pipeline passes JSON-like dictionaries between its stages (\<^verbatim>\<open>Dict[str, Any]\<close>).
  A Python value is one of the shapes that \<^verbatim>\<open>json.loads\<close> can produce. A Python float is
  held as the real number it stands for; its arithmetic is the rounded arithmetic of IEEE
  doubles (section Python floats). A dictionary is an association list, in insertion
  order, with string keys.
\<close>

datatype pyval =
    PNone
  | PBool bool
  | PInt int
  | PFloat real
  | PStr string
  | PList "pyval list"
  | PDict "(string \<times> pyval) list"

type_synonym pydict = "(string \<times> pyval) list"

datatype exn = TypeError | ValueError | AttributeError

text \<open>Truth value of a Python object, as tested by \<^verbatim>\<open>if x:\<close> and \<^verbatim>\<open>x or y\<close>.\<close>

fun py_truthy :: "pyval \<Rightarrow> bool" where
  "py_truthy PNone = False"
| "py_truthy (PBool b) = b"
| "py_truthy (PInt i) = (i \<noteq> 0)"
| "py_truthy (PFloat x) = (x \<noteq> 0)"
| "py_truthy (PStr s) = (s \<noteq> [])"
| "py_truthy (PList xs) = (xs \<noteq> [])"
| "py_truthy (PDict kvs) = (kvs \<noteq> [])"

text \<open>\<^verbatim>\<open>d.get(key, default)\<close> and \<^verbatim>\<open>d[key] = value\<close> (an existing key keeps its place).\<close>

definition dict_get :: "pydict \<Rightarrow> string \<Rightarrow> pyval \<Rightarrow> pyval" where
  "dict_get d k dflt = (case map_of d k of Some v \<Rightarrow> v | None \<Rightarrow> dflt)"

fun dict_set :: "pydict \<Rightarrow> string \<Rightarrow> pyval \<Rightarrow> pydict" where
  "dict_set [] k v = [(k, v)]"
| "dict_set ((k', v') # d) k v = (if k' = k then (k, v) # d else (k', v') # dict_set d k v)"

section \<open>Python string operations\<close>

text \<open>
  Strings are lists of 8-bit characters; the operations below are those of \<^verbatim>\<open>str\<close>
  on ASCII text: \<^verbatim>\<open>lower\<close> changes the letters A to Z only, \<^verbatim>\<open>strip\<close> removes the
  ASCII white space (codes 9 to 13 and 28 to 32).
\<close>

definition is_upper :: "char \<Rightarrow> bool" where
  "is_upper c = (65 \<le> (of_char c :: nat) \<and> (of_char c :: nat) \<le> 90)"

fun char_lower :: "char \<Rightarrow> char" where
  "char_lower (Char b0 b1 b2 b3 b4 b5 b6 b7) =
     (if is_upper (Char b0 b1 b2 b3 b4 b5 b6 b7) then Char b0 b1 b2 b3 b4 True b6 b7
      else Char b0 b1 b2 b3 b4 b5 b6 b7)"

definition str_lower :: "string \<Rightarrow> string" where
  "str_lower s = map char_lower s"

definition is_space :: "char \<Rightarrow> bool" where
  "is_space c = ((9 \<le> (of_char c :: nat) \<and> (of_char c :: nat) \<le> 13)
                 \<or> (28 \<le> (of_char c :: nat) \<and> (of_char c :: nat) \<le> 32))"

definition str_strip :: "string \<Rightarrow> string" where
  "str_strip s = rev (dropWhile is_space (rev (dropWhile is_space s)))"

text \<open>\<^verbatim>\<open>s.split(sep)\<close> for a one-character separator: never the empty list.\<close>

fun str_split :: "char \<Rightarrow> string \<Rightarrow> string list" where
  "str_split sep [] = [[]]"
| "str_split sep (c # cs) =
     (if c = sep then [] # str_split sep cs
      else (case str_split sep cs of
              w # ws \<Rightarrow> (c # w) # ws
            | [] \<Rightarrow> [[c]]))"

text \<open>\<^verbatim>\<open>sep.join(xs)\<close>.\<close>

fun str_join :: "string \<Rightarrow> string list \<Rightarrow> string" where
  "str_join sep [] = []"
| "str_join sep [x] = x"
| "str_join sep (x # y # ys) = x @ sep @ str_join sep (y # ys)"

text \<open>\<^verbatim>\<open>s.startswith(sub)\<close> and the substring test \<^verbatim>\<open>sub in s\<close>.\<close>

fun str_startswith :: "string \<Rightarrow> string \<Rightarrow> bool" where
  "str_startswith [] s = True"
| "str_startswith (a # as) [] = False"
| "str_startswith (a # as) (b # bs) = (a = b \<and> str_startswith as bs)"

fun str_contains :: "string \<Rightarrow> string \<Rightarrow> bool" where
  "str_contains sub [] = (sub = [])"
| "str_contains sub (c # cs) = (str_startswith sub (c # cs) \<or> str_contains sub cs)"

text \<open>Decimal rendering of an integer, as \<^verbatim>\<open>str(i)\<close> and an f-string do.\<close>

fun digits_of_nat :: "nat \<Rightarrow> string" where
  "digits_of_nat n =
     (if n < 10 then [''0123456789'' ! n]
      else digits_of_nat (n div 10) @ [''0123456789'' ! (n mod 10)])"

declare digits_of_nat.simps [simp del]

definition str_of_int :: "int \<Rightarrow> string" where
  "str_of_int i = (if i < 0 then CHR ''-'' # digits_of_nat (nat (- i)) else digits_of_nat (nat i))"

text \<open>
  \<^verbatim>\<open>int(s)\<close> on a string: white space is stripped, one sign is allowed, the rest is
  groups of decimal digits separated by single underscores; anything else is a
  ValueError.
\<close>

definition is_digit :: "char \<Rightarrow> bool" where
  "is_digit c = (48 \<le> (of_char c :: nat) \<and> (of_char c :: nat) \<le> 57)"

definition digit_groups_ok :: "string \<Rightarrow> bool" where
  "digit_groups_ok body = list_all (\<lambda>g. g \<noteq> [] \<and> list_all is_digit g) (str_split (CHR ''_'') body)"

definition digits_value :: "string \<Rightarrow> int" where
  "digits_value body =
     foldl (\<lambda>acc c. 10 * acc + (int (of_char c) - 48)) 0 (filter (\<lambda>c. c \<noteq> CHR ''_'') body)"

definition int_of_str :: "string \<Rightarrow> exn + int" where
  "int_of_str s =
     (case str_strip s of
        [] \<Rightarrow> Inl ValueError
      | c # cs \<Rightarrow>
          (if c = CHR ''-'' then (if digit_groups_ok cs then Inr (- digits_value cs) else Inl ValueError)
           else if c = CHR ''+'' then (if digit_groups_ok cs then Inr (digits_value cs) else Inl ValueError)
           else (if digit_groups_ok (c # cs) then Inr (digits_value (c # cs)) else Inl ValueError)))"

text \<open>
  \<^verbatim>\<open>int(x)\<close>: a float is truncated towards zero, a bool is 0 or 1, \<^verbatim>\<open>None\<close>, lists
  and dictionaries raise TypeError.
\<close>

fun py_int :: "pyval \<Rightarrow> exn + int" where
  "py_int PNone = Inl TypeError"
| "py_int (PBool b) = Inr (if b then 1 else 0)"
| "py_int (PInt i) = Inr i"
| "py_int (PFloat x) = Inr (if 0 \<le> x then \<lfloor>x\<rfloor> else \<lceil>x\<rceil>)"
| "py_int (PStr s) = int_of_str s"
| "py_int (PList xs) = Inl TypeError"
| "py_int (PDict kvs) = Inl TypeError"

text \<open>
  The idiom \<^verbatim>\<open>(x or "").strip()\<close> (or \<^verbatim>\<open>.lower()\<close>): a falsy value is replaced by the
  empty string, a non-empty string is itself, and any other value has no such method.
\<close>

fun or_empty_str :: "pyval \<Rightarrow> exn + string" where
  "or_empty_str (PStr s) = Inr s"
| "or_empty_str v = (if py_truthy v then Inl AttributeError else Inr [])"

text \<open>Python list slicing \<^verbatim>\<open>xs[lo:hi]\<close>, negative bounds counting from the end.\<close>

definition slice_bound :: "nat \<Rightarrow> int \<Rightarrow> nat" where
  "slice_bound n i = (if i < 0 then nat (max (i + int n) 0) else min (nat i) n)"

definition py_slice :: "'a list \<Rightarrow> int \<Rightarrow> int \<Rightarrow> 'a list" where
  "py_slice xs lo hi =
     take (slice_bound (length xs) hi - slice_bound (length xs) lo)
          (drop (slice_bound (length xs) lo) xs)"

text \<open>
  \<^verbatim>\<open>xs.sort(key=f, reverse=True)\<close>: CPython reverses the list, sorts it stably in
  ascending key order and reverses the result.
\<close>

definition py_sort_reverse :: "('a \<Rightarrow> 'k::linorder) \<Rightarrow> 'a list \<Rightarrow> 'a list" where
  "py_sort_reverse f xs = rev (sort_key f (rev xs))"

section \<open>Python floats\<close>

text \<open>
  A Python float is an IEEE 754 double. A finite double is a real number \<open>m * 2^j\<close> with
  \<open>\<bar>m\<bar> < 2^53\<close> and \<open>- 1074 \<le> j\<close>, and the model holds a float as that real number. The
  sum, difference and product of two floats is the exact result rounded to the nearest
  double, a tie going to the even mantissa; a literal such as \<^verbatim>\<open>0.8\<close> is the double
  nearest to the decimal. Around \<open>x\<close> with \<open>2^e \<le> \<bar>x\<bar> < 2^(e + 1)\<close> the doubles are
  \<open>2^(e - 52)\<close> apart, and never less than \<open>2^(- 1074)\<close> apart (subnormal numbers).
  Infinity and NaN are outside this model: it gives the results of magnitude below
  \<open>2^1024\<close>, which are all the results on the ranges of the data model (ratings from 0 to
  5, review counts from 0).
\<close>

text \<open>The number of binary digits of a natural number.\<close>

fun bit_length :: "nat \<Rightarrow> nat" where
  "bit_length n = (if n = 0 then 0 else Suc (bit_length (n div 2)))"

declare bit_length.simps [simp del]

text \<open>The binary exponent \<open>e\<close> of a positive real: \<open>2^e \<le> x < 2^(e + 1)\<close>.\<close>

definition float_exponent :: "real \<Rightarrow> int" where
  "float_exponent x =
     (if 1 \<le> x then int (bit_length (nat \<lfloor>x\<rfloor>)) - 1
      else - int (bit_length (nat (\<lceil>1 / x\<rceil> - 1))))"

text \<open>Rounding to the nearest integer, a tie going to the even one.\<close>

definition round_half_even :: "real \<Rightarrow> int" where
  "round_half_even r =
     (let f = \<lfloor>r\<rfloor>; d = r - of_int f
      in if d < 1 / 2 then f
         else if 1 / 2 < d then f + 1
         else if even f then f else f + 1)"

text \<open>Rounding a real number to the nearest double.\<close>

definition round_double :: "real \<Rightarrow> real" where
  "round_double x =
     (if x = 0 then 0
      else (let e = float_exponent \<bar>x\<bar>;
                q = 2 powi (max (e - 52) (- 1074))
            in of_int (round_half_even (x / q)) * q))"

text \<open>The float operations \<^verbatim>\<open>x + y\<close>, \<^verbatim>\<open>x - y\<close> and \<^verbatim>\<open>x * y\<close>.\<close>

definition fadd :: "real \<Rightarrow> real \<Rightarrow> real" where
  "fadd x y = round_double (x + y)"

definition fsub :: "real \<Rightarrow> real \<Rightarrow> real" where
  "fsub x y = round_double (x - y)"

definition fmul :: "real \<Rightarrow> real \<Rightarrow> real" where
  "fmul x y = round_double (x * y)"

section \<open>utils.py\<close>

subsection \<open>Attraction records\<close>

text \<open>
  The metadata that \<^verbatim>\<open>_build_vectorstore\<close> attaches to every document: seven strings, an
  integer and two floats. \<^verbatim>\<open>search_attractions\<close> copies it and adds \<^verbatim>\<open>summary\<close>;
  \<^verbatim>\<open>retrieve_attractions\<close> adds \<^verbatim>\<open>score\<close>. Every key is present with its type in
  such a dictionary, so an attraction is a record, and the defaults of \<^verbatim>\<open>a.get(key, default)\<close>
  and the \<^verbatim>\<open>except\<close> branches around \<^verbatim>\<open>float(...)\<close> in \<^verbatim>\<open>score_attraction\<close> are never taken.
\<close>

record metadata =
  name :: string
  city :: string
  state :: string
  region :: string
  tags :: string
  best_season :: string
  cost_level :: string
  typical_duration_hours :: int
  rating :: real
  review_count_lakhs :: real

record attraction = metadata +
  summary :: string

record scored_attraction = attraction +
  score :: real

subsection \<open>normalize\_budget\_level\<close>

definition normalize_budget_level :: "string \<Rightarrow> string" where
  "normalize_budget_level budget_level =
     (let bl = str_lower (str_strip budget_level) in
      if str_contains ''low'' bl then ''low''
      else if str_contains ''high'' bl then ''high''
      else ''medium'')"

subsection \<open>score\_attraction\<close>

text \<open>
  The loop over the interests, with the running score as accumulator. The score is a
  float: \<^verbatim>\<open>score += 2.0\<close> is a float addition, and so are the updates that follow. The
  literals 2.0, 1.0, 1.5 and 0.5 are doubles; 0.8 is not, and stands for the double
  nearest to it. \<^verbatim>\<open>min(reviews_lakhs, 5)\<close> compares the values.
\<close>

fun interest_loop :: "string \<Rightarrow> string list \<Rightarrow> real \<Rightarrow> real" where
  "interest_loop tgs [] sc = sc"
| "interest_loop tgs (interest # rest) sc =
     interest_loop tgs rest
       (if str_contains (str_strip (str_lower interest)) tgs then fadd sc 2 else sc)"

definition score_attraction ::
  "'z attraction_scheme \<Rightarrow> string list \<Rightarrow> string \<Rightarrow> string \<Rightarrow> real" where
  "score_attraction a interests trip_type budget_level =
     (let tgs = str_lower (tags a);
          bl = normalize_budget_level budget_level;
          s1 = interest_loop tgs interests 0;
          tt = str_lower trip_type;
          s2 = (if str_contains ''family'' tt \<and> str_contains ''nightlife'' tgs then fsub s1 1 else s1);
          s3 = (if str_contains ''couple'' tt \<and> str_contains ''romantic'' tgs then fadd s2 1 else s2);
          cl = str_lower (cost_level a);
          s4 = (if bl = ''low'' \<and> cl = ''low'' then fadd s3 1.5
                else if bl = ''high'' \<and> cl = ''high'' then fadd s3 1.5
                else s3);
          s5 = fadd s4 (fmul (rating a) (round_double 0.8));
          s6 = fadd s5 (fmul (min (review_count_lakhs a) 5) 0.5)
      in s6)"

subsection \<open>estimate\_daily\_cost\<close>

definition estimate_daily_cost :: "string \<Rightarrow> int" where
  "estimate_daily_cost budget_level =
     (let bl = normalize_budget_level budget_level in
      if bl = ''low'' then 1500
      else if bl = ''high'' then 4000
      else 2500)"

section \<open>External collaborators\<close>

text \<open>
  The language model, the JSON library, the vector index and \<^verbatim>\<open>repr\<close> are not code of
  this repository; they are parameters of the model.
  \<^item> \<open>llm_invoke env sent prompt\<close> is the text of the answer (\<^verbatim>\<open>llm.invoke(prompt).content\<close>),
    which may depend on the prompts sent before (\<open>sent\<close>);
  \<^item> \<open>json_loads env text\<close> is \<open>None\<close> when \<^verbatim>\<open>json.loads\<close> raises;
  \<^item> \<open>json_dumps env v\<close> is \<^verbatim>\<open>json.dumps(v, indent=2)\<close>;
  \<^item> \<open>similarity_search env query k\<close> is \<^verbatim>\<open>vectorstore.similarity_search(query, k=k)\<close>;
  \<^item> \<open>py_repr env v\<close> is \<^verbatim>\<open>str(v)\<close> for a value that is not a string.

  The model always answers: a call that raises (no network, no credential) is outside
  this model, as is the build of the index.
\<close>

record document =
  page_content :: string
  metadata :: metadata

record env =
  llm_invoke :: "string list \<Rightarrow> string \<Rightarrow> string"
  json_loads :: "string \<Rightarrow> pyval option"
  json_dumps :: "pyval \<Rightarrow> string"
  similarity_search :: "string \<Rightarrow> int \<Rightarrow> document list"
  py_repr :: "pyval \<Rightarrow> string"

text \<open>One model call: the answer, and the log of prompts extended by this one.\<close>

definition invoke :: "env \<Rightarrow> string list \<Rightarrow> string \<Rightarrow> string \<times> string list" where
  "invoke env sent prompt = (llm_invoke env sent prompt, sent @ [prompt])"

text \<open>A value inside an f-string: a string is inserted as it is.\<close>

definition py_format :: "env \<Rightarrow> pyval \<Rightarrow> string" where
  "py_format env v = (case v of PStr s \<Rightarrow> s | _ \<Rightarrow> py_repr env v)"

section \<open>rag\_pipeline.py\<close>

text \<open>
  The vector store is built once, when the pipeline object is created; a search only
  reads it. A search result is a document: the description as \<^verbatim>\<open>page_content\<close> and the
  other columns as \<^verbatim>\<open>metadata\<close>. \<^verbatim>\<open>search_attractions\<close> is modelled at its annotated
  types (\<^verbatim>\<open>destination: str\<close>, \<^verbatim>\<open>interests: List[str]\<close>, \<^verbatim>\<open>k: int\<close>), where
  \<^verbatim>\<open>destination or ""\<close> and \<^verbatim>\<open>interests or []\<close> change nothing.
\<close>

definition attraction_of_doc :: "document \<Rightarrow> attraction" where
  "attraction_of_doc doc =
     \<lparr> name = name (metadata doc), city = city (metadata doc), state = state (metadata doc),
       region = region (metadata doc), tags = tags (metadata doc),
       best_season = best_season (metadata doc), cost_level = cost_level (metadata doc),
       typical_duration_hours = typical_duration_hours (metadata doc),
       rating = rating (metadata doc), review_count_lakhs = review_count_lakhs (metadata doc),
       summary = page_content doc \<rparr>"

definition dest_tokens :: "string \<Rightarrow> string list" where
  "dest_tokens destination =
     map (\<lambda>d. str_lower (str_strip d))
         (filter (\<lambda>d. str_strip d \<noteq> []) (str_split (CHR '','') destination))"

definition doc_matches :: "string list \<Rightarrow> document \<Rightarrow> bool" where
  "doc_matches tokens doc =
     (let cty = str_lower (city (metadata doc));
          st = str_lower (state (metadata doc));
          rg = str_lower (region (metadata doc))
      in list_ex (\<lambda>dt. str_contains dt cty \<or> str_contains dt st \<or> str_contains dt rg) tokens)"

text \<open>The loop that appends the matching documents to \<^verbatim>\<open>filtered_docs\<close>.\<close>

fun filter_loop :: "string list \<Rightarrow> document list \<Rightarrow> document list \<Rightarrow> document list" where
  "filter_loop tokens [] filtered_docs = filtered_docs"
| "filter_loop tokens (doc # rest) filtered_docs =
     filter_loop tokens rest
       (if doc_matches tokens doc then filtered_docs @ [doc] else filtered_docs)"

definition search_query :: "string \<Rightarrow> string list \<Rightarrow> string" where
  "search_query destination interests =
     ''Tourist attractions in '' @ destination @ '' for interests: '' @ str_join '', '' interests"

definition search_attractions :: "env \<Rightarrow> string \<Rightarrow> string list \<Rightarrow> int \<Rightarrow> attraction list" where
  "search_attractions env destination interests k =
     (let destination = str_strip destination;
          query = search_query destination interests;
          raw_results = similarity_search env query k;
          tokens = dest_tokens destination;
          filtered_docs = (if tokens \<noteq> [] then filter_loop tokens raw_results [] else []);
          results = (if filtered_docs \<noteq> [] then filtered_docs else raw_results)
      in map attraction_of_doc results)"

section \<open>agents.py\<close>

subsection \<open>extract\_preferences\<close>

definition PREFERENCE_EXTRACTION_SYSTEM_PROMPT :: string where
  \<open>PREFERENCE_EXTRACTION_SYSTEM_PROMPT =
     ''\<newline>'' @
     ''You are a travel preference extraction assistant.\<newline>'' @
     ''Given a user's free-form text about a trip, extract structured fields as JSON:\<newline>'' @
     ''- destination (string, city/state/region)\<newline>'' @
     ''- days (integer number of days)\<newline>'' @
     ''- budget_level (one of: low, medium, high)\<newline>'' @
     ''- trip_type (one of: family, friends, couple, solo; choose closest)\<newline>'' @
     ''- interests (list of 3-6 keywords like: nature, adventure, temples, beaches, food, nightlife, culture, history)\<newline>'' @
     ''\<newline>'' @
     ''If something is not explicitly given, make a reasonable assumption.\<newline>'' @
     ''Return ONLY valid JSON, no explanation.\<newline>''\<close>

definition default_preferences :: pyval where
  "default_preferences =
     PDict [(''destination'', PStr ''Goa''),
            (''days'', PInt 3),
            (''budget_level'', PStr ''medium''),
            (''trip_type'', PStr ''friends''),
            (''interests'', PList [PStr ''beach'', PStr ''nightlife''])]"

definition extract_preferences :: "env \<Rightarrow> string \<Rightarrow> string list \<Rightarrow> pyval \<times> string list" where
  "extract_preferences env user_input sent =
     (let prompt = PREFERENCE_EXTRACTION_SYSTEM_PROMPT @ ''\<newline>\<newline>User Input:\<newline>'' @ user_input;
          (content, sent') = invoke env sent prompt
      in case json_loads env content of
           Some data \<Rightarrow> (data, sent')
         | None \<Rightarrow> (default_preferences, sent'))"

subsection \<open>retrieve\_attractions\<close>

text \<open>
  \<^verbatim>\<open>', '.join(interests)\<close> needs every item to be a string (TypeError otherwise); the
  destination goes through \<^verbatim>\<open>(destination or "").strip()\<close>.
\<close>

fun str_items :: "pyval list \<Rightarrow> exn + string list" where
  "str_items [] = Inr []"
| "str_items (v # vs) =
     (case v of
        PStr s \<Rightarrow> (case str_items vs of Inl e \<Rightarrow> Inl e | Inr ss \<Rightarrow> Inr (s # ss))
      | _ \<Rightarrow> Inl TypeError)"

definition add_score :: "attraction \<Rightarrow> real \<Rightarrow> scored_attraction" where
  "add_score a s =
     \<lparr> name = name a, city = city a, state = state a, region = region a, tags = tags a,
       best_season = best_season a, cost_level = cost_level a,
       typical_duration_hours = typical_duration_hours a, rating = rating a,
       review_count_lakhs = review_count_lakhs a, summary = summary a, score = s \<rparr>"

text \<open>
  The scoring loop. \<^verbatim>\<open>score_attraction\<close> applies \<^verbatim>\<open>(x or "")\<close> and a string method to the
  budget level and to the trip type, so a truthy value that is not a string raises
  AttributeError there, once the loop has an attraction to score.
\<close>

fun score_loop ::
  "attraction list \<Rightarrow> string list \<Rightarrow> pyval \<Rightarrow> pyval \<Rightarrow> scored_attraction list
     \<Rightarrow> exn + scored_attraction list" where
  "score_loop [] interests trip_type budget_level scored = Inr scored"
| "score_loop (a # rest) interests trip_type budget_level scored =
     (case or_empty_str budget_level of
        Inl e \<Rightarrow> Inl e
      | Inr bl \<Rightarrow>
          (case or_empty_str trip_type of
             Inl e \<Rightarrow> Inl e
           | Inr tt \<Rightarrow>
               score_loop rest interests trip_type budget_level
                 (scored @ [add_score a (score_attraction a interests tt bl)])))"

definition retrieve_attractions :: "env \<Rightarrow> pydict \<Rightarrow> int \<Rightarrow> exn + scored_attraction list" where
  "retrieve_attractions env preferences max_results =
     (let destination = dict_get preferences ''destination'' (PStr []);
          interests = dict_get preferences ''interests'' (PList []);
          interests = (case interests of PList xs \<Rightarrow> xs | v \<Rightarrow> [v])
      in case or_empty_str destination of
           Inl e \<Rightarrow> Inl e
         | Inr dest \<Rightarrow>
             (case str_items interests of
                Inl e \<Rightarrow> Inl e
              | Inr ints \<Rightarrow>
                  (let raw_results = search_attractions env dest ints max_results in
                   case score_loop raw_results ints
                          (dict_get preferences ''trip_type'' (PStr []))
                          (dict_get preferences ''budget_level'' (PStr ''medium'')) [] of
                     Inl e \<Rightarrow> Inl e
                   | Inr scored \<Rightarrow> Inr (py_sort_reverse score scored))))"

subsection \<open>plan\_itinerary\<close>

definition ITINERARY_PLANNER_SYSTEM_PROMPT :: string where
  \<open>ITINERARY_PLANNER_SYSTEM_PROMPT =
     ''\<newline>'' @
     ''You are an expert travel planner.\<newline>'' @
     ''You receive:\<newline>'' @
     ''- a destination\<newline>'' @
     ''- number of days\<newline>'' @
     ''- list of candidate attractions with metadata (name, city, tags, duration hours, cost_level)\<newline>'' @
     ''- user preferences (trip type, interests, budget level)\<newline>'' @
     ''\<newline>'' @
     ''Goal:\<newline>'' @
     ''Create a realistic, day-wise itinerary.\<newline>'' @
     ''Rules:\<newline>'' @
     ''- 2 to 4 main attractions per day depending on duration hours.\<newline>'' @
     ''- Group nearby attractions (same city/region) in the same day if possible.\<newline>'' @
     ''- Respect budget_level and avoid too many 'high' cost_level attractions for low budget.\<newline>'' @
     ''- Mix experiences (e.g., not all temples in one day if possible).\<newline>'' @
     ''- Make sure each day is not overloaded in total hours (>8 hours).\<newline>'' @
     ''\<newline>'' @
     ''Return the itinerary in structured JSON:\<newline>'' @
     ''{\<newline>'' @
     ''  "days": [\<newline>'' @
     ''    {\<newline>'' @
     ''      "day": 1,\<newline>'' @
     ''      "title": "Short text title",\<newline>'' @
     ''      "attractions": [\<newline>'' @
     ''        {\<newline>'' @
     ''          "name": "...",\<newline>'' @
     ''          "city": "...",\<newline>'' @
     ''          "state": "...",\<newline>'' @
     ''          "typical_duration_hours": 3,\<newline>'' @
     ''          "cost_level": "medium",\<newline>'' @
     ''          "notes": "short explanation for this attraction in context of trip"\<newline>'' @
     ''        }\<newline>'' @
     ''      ]\<newline>'' @
     ''    }\<newline>'' @
     ''  ]\<newline>'' @
     ''}\<newline>'' @
     ''No extra text, only JSON.\<newline>''\<close>

text \<open>
  The attractions-per-day target (lines 114 to 121). The style is \<open>None\<close> when the
  caller passes \<^verbatim>\<open>None\<close>; \<^verbatim>\<open>itinerary_style or "standard"\<close> replaces that and the empty
  string by \<^verbatim>\<open>"standard"\<close>.
\<close>

definition style_per_day :: "string option \<Rightarrow> int" where
  "style_per_day itinerary_style =
     (let base_per_day = 3;
          style = str_lower (case itinerary_style of
                               None \<Rightarrow> ''standard''
                             | Some s \<Rightarrow> (if s = [] then ''standard'' else s))
      in if str_contains ''relaxed'' style then 2
         else if str_contains ''packed'' style then 4
         else base_per_day)"

definition compact_entry :: "'z attraction_scheme \<Rightarrow> pyval" where
  "compact_entry a =
     PDict [(''name'', PStr (name a)),
            (''city'', PStr (city a)),
            (''state'', PStr (state a)),
            (''tags'', PStr (tags a)),
            (''typical_duration_hours'', PInt (typical_duration_hours a)),
            (''cost_level'', PStr (cost_level a))]"

text \<open>The data sent to the model (lines 126 to 148).\<close>

definition planner_input ::
  "pydict \<Rightarrow> int \<Rightarrow> string option \<Rightarrow> 'z attraction_scheme list \<Rightarrow> pyval" where
  "planner_input preferences days itinerary_style top_attractions =
     (let compact_list = map compact_entry top_attractions
      in PDict [(''destination'', dict_get preferences ''destination'' PNone),
                (''days'', PInt days),
                (''trip_type'', dict_get preferences ''trip_type'' PNone),
                (''budget_level'', dict_get preferences ''budget_level'' PNone),
                (''interests'', dict_get preferences ''interests'' PNone),
                (''itinerary_style'', (case itinerary_style of None \<Rightarrow> PNone | Some s \<Rightarrow> PStr s)),
                (''candidate_attractions'', PList compact_list)])"

definition fallback_entry :: "'z attraction_scheme \<Rightarrow> pyval" where
  "fallback_entry a =
     PDict [(''name'', PStr (name a)),
            (''city'', PStr (city a)),
            (''state'', PStr (state a)),
            (''typical_duration_hours'', PInt (typical_duration_hours a)),
            (''cost_level'', PStr (cost_level a)),
            (''notes'', PStr [])]"

text \<open>One day of the fallback itinerary (lines 162 to 177): \<^verbatim>\<open>day_obj\<close> for day \<open>d\<close>.\<close>

definition fallback_day_obj :: "env \<Rightarrow> pydict \<Rightarrow> int \<Rightarrow> 'z attraction_scheme list \<Rightarrow> pyval" where
  "fallback_day_obj env preferences d day_atts =
     PDict [(''day'', PInt d),
            (''title'', PStr (''Day '' @ str_of_int d @ '' in ''
                @ py_format env (dict_get preferences ''destination'' (PStr [])))),
            (''attractions'', PList (map fallback_entry day_atts))]"

text \<open>
  The fallback loop \<^verbatim>\<open>for d in range(1, days + 1)\<close> (lines 159 to 178), over the day
  numbers still to do, with \<^verbatim>\<open>idx\<close> and \<^verbatim>\<open>fallback_days\<close> as loop state.
\<close>

fun fallback_loop ::
  "env \<Rightarrow> pydict \<Rightarrow> 'z attraction_scheme list \<Rightarrow> int \<Rightarrow> int list \<Rightarrow> int \<Rightarrow> pyval list
     \<Rightarrow> pyval list" where
  "fallback_loop env preferences top_attractions per_day [] idx fallback_days = fallback_days"
| "fallback_loop env preferences top_attractions per_day (d # ds) idx fallback_days =
     (let day_atts = py_slice top_attractions idx (idx + per_day);
          day_obj = fallback_day_obj env preferences d day_atts
      in fallback_loop env preferences top_attractions per_day ds (idx + per_day)
           (fallback_days @ [day_obj]))"

definition plan_itinerary ::
  "env \<Rightarrow> pydict \<Rightarrow> 'z attraction_scheme list \<Rightarrow> string option \<Rightarrow> string list
     \<Rightarrow> (exn + pyval) \<times> string list" where
  "plan_itinerary env preferences attractions itinerary_style sent =
     (case py_int (dict_get preferences ''days'' (PInt 3)) of
        Inl e \<Rightarrow> (Inl e, sent)
      | Inr n \<Rightarrow>
          (let days = max n 1;
               per_day = style_per_day itinerary_style;
               top_attractions = py_slice attractions 0 (max (days * per_day) (days * 2));
               prompt = ITINERARY_PLANNER_SYSTEM_PROMPT @ ''\<newline>\<newline>Data:\<newline>''
                          @ json_dumps env (planner_input preferences days itinerary_style top_attractions);
               (content, sent') = invoke env sent prompt
           in case json_loads env content of
                Some itinerary \<Rightarrow> (Inr itinerary, sent')
              | None \<Rightarrow>
                  (let per_day = max 1 (int (length top_attractions) div days);
                       fallback_days =
                         fallback_loop env preferences top_attractions per_day [1..days] 0 []
                   in (Inr (PDict [(''days'', PList fallback_days)]), sent'))))"

subsection \<open>estimate\_cost\<close>

definition estimate_cost :: "pydict \<Rightarrow> pyval \<Rightarrow> exn + pyval" where
  "estimate_cost preferences itinerary =
     (case py_int (dict_get preferences ''days'' (PInt 3)) of
        Inl e \<Rightarrow> Inl e
      | Inr n \<Rightarrow>
          (let days = max n 1;
               budget_level = dict_get preferences ''budget_level'' (PStr ''medium'')
           in case or_empty_str budget_level of
                Inl e \<Rightarrow> Inl e
              | Inr bl \<Rightarrow>
                  (let per_day = estimate_daily_cost bl;
                       total = per_day * days
                   in Inr (PDict [(''budget_level'', budget_level),
                                  (''estimated_per_day'', PInt per_day),
                                  (''estimated_total'', PInt total),
                                  (''currency'', PStr ''INR'')]))))"

subsection \<open>generate\_summary\_and\_tips\<close>

definition RESPONSE_SUMMARY_SYSTEM_PROMPT :: string where
  \<open>RESPONSE_SUMMARY_SYSTEM_PROMPT =
     ''\<newline>'' @
     ''You are a helpful travel assistant.\<newline>'' @
     ''Given:\<newline>'' @
     ''- user preferences\<newline>'' @
     ''- a day-wise itinerary\<newline>'' @
     ''- a cost estimation\<newline>'' @
     ''\<newline>'' @
     ''Generate:\<newline>'' @
     ''- A concise trip summary paragraph (3-6 sentences)\<newline>'' @
     ''- 4-6 practical travel tips for this destination and trip type.\<newline>'' @
     ''\<newline>'' @
     ''Return response as JSON:\<newline>'' @
     ''{\<newline>'' @
     ''  "summary": "...",\<newline>'' @
     ''  "tips": ["...", "..."]\<newline>'' @
     ''}\<newline>'' @
     ''No extra explanation.\<newline>''\<close>

definition default_summary :: pyval where
  "default_summary =
     PDict [(''summary'', PStr ''This is a multi-day trip plan generated based on your preferences.''),
            (''tips'', PList [PStr ''Carry basic medicines and a water bottle.'',
                              PStr ''Check local weather before packing.''])]"

definition generate_summary_and_tips ::
  "env \<Rightarrow> pydict \<Rightarrow> pyval \<Rightarrow> pyval \<Rightarrow> string list \<Rightarrow> pyval \<times> string list" where
  "generate_summary_and_tips env preferences itinerary cost_info sent =
     (let data = PDict [(''preferences'', PDict preferences),
                        (''itinerary'', itinerary),
                        (''cost'', cost_info)];
          prompt = RESPONSE_SUMMARY_SYSTEM_PROMPT @ ''\<newline>\<newline>Data:\<newline>'' @ json_dumps env data;
          (content, sent') = invoke env sent prompt
      in case json_loads env content of
           Some obj \<Rightarrow> (obj, sent')
         | None \<Rightarrow> (default_summary, sent'))"

subsection \<open>run\_planning\_pipeline\<close>

text \<open>
  The module defines \<^verbatim>\<open>run_planning_pipeline\<close> twice; the second definition (four
  parameters) replaces the first and is the one modelled. Item assignment on a value
  that is not a dictionary raises TypeError; the assignment of \<^verbatim>\<open>itinerary_style\<close> is
  outside every \<^verbatim>\<open>try\<close>.
\<close>

record result_bundle =
  result_preferences :: pydict
  result_attractions :: "scored_attraction list"
  result_itinerary :: pyval
  result_cost :: pyval
  result_summary :: pyval

definition run_planning_pipeline ::
  "env \<Rightarrow> string \<Rightarrow> string \<Rightarrow> pyval \<Rightarrow> string option \<Rightarrow> string list
     \<Rightarrow> (exn + result_bundle) \<times> string list" where
  "run_planning_pipeline env user_input explicit_destination explicit_days itinerary_style sent =
     (let (extracted, sent1) = extract_preferences env user_input sent in
      case extracted of
        PDict preferences \<Rightarrow>
          (let preferences =
                 (if explicit_destination \<noteq> []
                  then dict_set preferences ''destination'' (PStr explicit_destination)
                  else preferences);
               preferences =
                 (if py_truthy explicit_days
                  then (case py_int explicit_days of
                          Inr n \<Rightarrow> dict_set preferences ''days'' (PInt n)
                        | Inl e \<Rightarrow> preferences)
                  else preferences);
               preferences =
                 dict_set preferences ''itinerary_style''
                   (case itinerary_style of None \<Rightarrow> PNone | Some s \<Rightarrow> PStr s)
           in case retrieve_attractions env preferences 15 of
                Inl e \<Rightarrow> (Inl e, sent1)
              | Inr attractions \<Rightarrow>
                  (case plan_itinerary env preferences attractions itinerary_style sent1 of
                     (Inl e, sent2) \<Rightarrow> (Inl e, sent2)
                   | (Inr itinerary, sent2) \<Rightarrow>
                       (case estimate_cost preferences itinerary of
                          Inl e \<Rightarrow> (Inl e, sent2)
                        | Inr cost_info \<Rightarrow>
                            (let (summary_info, sent3) =
                                   generate_summary_and_tips env preferences itinerary cost_info sent2
                             in (Inr \<lparr> result_preferences = preferences,
                                       result_attractions = attractions,
                                       result_itinerary = itinerary,
                                       result_cost = cost_info,
                                       result_summary = summary_info \<rparr>, sent3)))))
      | _ \<Rightarrow> (Inl TypeError, sent1))"

section \<open>Reading an itinerary\<close>

text \<open>
  The caller reads the plan with \<^verbatim>\<open>result["itinerary"].get("days", [])\<close> and each day
  with \<^verbatim>\<open>day.get("attractions", [])\<close> (app.py).
\<close>

definition itinerary_days :: "pyval \<Rightarrow> pyval list" where
  "itinerary_days itinerary =
     (case itinerary of
        PDict kvs \<Rightarrow> (case dict_get kvs ''days'' (PList []) of PList ds \<Rightarrow> ds | _ \<Rightarrow> [])
      | _ \<Rightarrow> [])"

definition day_attractions :: "pyval \<Rightarrow> pyval list" where
  "day_attractions day =
     (case day of
        PDict kvs \<Rightarrow> (case dict_get kvs ''attractions'' (PList []) of PList xs \<Rightarrow> xs | _ \<Rightarrow> [])
      | _ \<Rightarrow> [])"

section \<open>The expected shape of the extracted preferences\<close>

text \<open>
  Stated from the specification (section 4.1), to compare with what the code accepts: an
  object with exactly the fields destination, days, budget\_level, trip\_type and
  interests, of the types of the Preference Record.
\<close>

definition expected_shape :: "pyval \<Rightarrow> bool" where
  "expected_shape v =
     (case v of
        PDict kvs \<Rightarrow>
          (case (map_of kvs ''destination'', map_of kvs ''days'', map_of kvs ''budget_level'',
                 map_of kvs ''trip_type'', map_of kvs ''interests'') of
             (Some (PStr dest), Some (PInt d), Some (PStr b), Some (PStr t), Some (PList ints)) \<Rightarrow>
               length kvs = 5
           | _ \<Rightarrow> False)
      | _ \<Rightarrow> False)"

section \<open>The scoring formula of the specification\<close>

text \<open>
  Stated from the specification (section 4.3), over the real numbers, to compare with the
  float that the code returns. The part made of the interest matches, the trip type and
  the budget:
\<close>

definition spec_adjustments ::
  "'z attraction_scheme \<Rightarrow> string list \<Rightarrow> string \<Rightarrow> string \<Rightarrow> real" where
  "spec_adjustments a interests trip_type budget_level =
       2 * real (length (filter (\<lambda>i. str_contains (str_strip (str_lower i)) (str_lower (tags a)))
                          interests))
     + (if str_contains ''family'' (str_lower trip_type) \<and> str_contains ''nightlife'' (str_lower (tags a))
        then - 1 else 0)
     + (if str_contains ''couple'' (str_lower trip_type) \<and> str_contains ''romantic'' (str_lower (tags a))
        then 1 else 0)
     + (if (normalize_budget_level budget_level = ''low'' \<and> str_lower (cost_level a) = ''low'')
           \<or> (normalize_budget_level budget_level = ''high'' \<and> str_lower (cost_level a) = ''high'')
        then 1.5 else 0)"

text \<open>The whole sum, with the rating and the capped review count.\<close>

definition spec_score ::
  "'z attraction_scheme \<Rightarrow> string list \<Rightarrow> string \<Rightarrow> string \<Rightarrow> real" where
  "spec_score a interests trip_type budget_level =
       spec_adjustments a interests trip_type budget_level
     + rating a * 0.8
     + min (review_count_lakhs a) 5 * 0.5"

section \<open>Sample data\<close>

text \<open>
  Concrete inputs on which the theorems below are instantiated: five documents (four of
  them in the sample index), a
  collaborator record whose model answers from a list of canned replies (the reply to
  the n-th prompt; the empty text once the list is used up), whose JSON parser is a
  table from texts to values (any other text fails to parse) and whose index returns the
  first \<open>k\<close> sample documents, and three preference dictionaries.
\<close>

definition taj_mahal :: document where
  "taj_mahal = \<lparr> page_content = ''A white marble mausoleum on the Yamuna.'',
      metadata = \<lparr> name = ''Taj Mahal'', city = ''Agra'', state = ''Uttar Pradesh'', region = ''North'',
        tags = ''Monument, History'', best_season = ''Winter'', cost_level = ''high'',
        typical_duration_hours = 3, rating = 4.5, review_count_lakhs = 2 \<rparr> \<rparr>"

definition baga_beach :: document where
  "baga_beach = \<lparr> page_content = ''A lively beach with shacks and water sports.'',
      metadata = \<lparr> name = ''Baga Beach'', city = ''Baga'', state = ''Goa'', region = ''West'',
        tags = ''Beach, Nightlife'', best_season = ''Winter'', cost_level = ''low'',
        typical_duration_hours = 3, rating = 4.5, review_count_lakhs = 1 \<rparr> \<rparr>"

definition fort_aguada :: document where
  "fort_aguada = \<lparr> page_content = ''A Portuguese fort and lighthouse.'',
      metadata = \<lparr> name = ''Fort Aguada'', city = ''Candolim'', state = ''Goa'', region = ''West'',
        tags = ''Fort, History, Beach'', best_season = ''Winter'', cost_level = ''medium'',
        typical_duration_hours = 2, rating = 5, review_count_lakhs = 1 \<rparr> \<rparr>"

definition calangute_beach :: document where
  "calangute_beach = \<lparr> page_content = ''The largest beach of North Goa.'',
      metadata = \<lparr> name = ''Calangute Beach'', city = ''Calangute'', state = ''Goa'', region = ''West'',
        tags = ''Beach, Nightlife'', best_season = ''Winter'', cost_level = ''low'',
        typical_duration_hours = 3, rating = 4.5, review_count_lakhs = 1 \<rparr> \<rparr>"

definition arambol_beach :: document where
  "arambol_beach = \<lparr> page_content = ''A quiet beach in the north.'',
      metadata = \<lparr> name = ''Arambol Beach'', city = ''Arambol'', state = ''Goa'', region = ''West'',
        tags = ''Beach, Nightlife'', best_season = ''Winter'', cost_level = ''medium'',
        typical_duration_hours = 3, rating = 0.5, review_count_lakhs = 4 \<rparr> \<rparr>"

definition sample_docs :: "document list" where
  "sample_docs = [taj_mahal, baga_beach, fort_aguada, calangute_beach]"

definition sample_env :: "string list \<Rightarrow> (string \<times> pyval) list \<Rightarrow> env" where
  "sample_env replies parses =
     \<lparr> llm_invoke = (\<lambda>sent prompt. if length sent < length replies then replies ! length sent else []),
       json_loads = map_of parses,
       json_dumps = (\<lambda>v. []),
       similarity_search = (\<lambda>query k. py_slice sample_docs 0 k),
       py_repr = (\<lambda>v. []) \<rparr>"

definition goa_preferences :: pydict where
  "goa_preferences =
     [(''destination'', PStr ''Goa''), (''days'', PInt 3), (''budget_level'', PStr ''medium''),
      (''trip_type'', PStr ''friends''), (''interests'', PList [PStr ''beach'', PStr ''nightlife''])]"

definition solo_preferences :: pydict where
  "solo_preferences =
     [(''destination'', PStr ''Goa''), (''days'', PInt 5), (''budget_level'', PStr ''low''),
      (''trip_type'', PStr ''solo''), (''interests'', PList [PStr ''beach'', PStr ''history''])]"

text \<open>Nine attractions \<open>A1\<close> to \<open>A9\<close>, for the planner's fallback.\<close>

definition numbered_attraction :: "int \<Rightarrow> attraction" where
  "numbered_attraction i =
     \<lparr> name = CHR ''A'' # str_of_int i, city = ''Panaji'', state = ''Goa'', region = ''West'',
       tags = ''Beach'', best_season = ''Winter'', cost_level = ''low'',
       typical_duration_hours = 2, rating = 4, review_count_lakhs = 1,
       summary = ''A place to see.'' \<rparr>"

section \<open>Facts about the string operations\<close>

lemmas str_eval = str_lower_def str_strip_def is_space_def is_upper_def

lemma is_space_char_lower: "is_space (char_lower c) = is_space c"
  by (cases c) (auto simp: is_space_def is_upper_def)

lemma char_lower_idem: "char_lower (char_lower c) = char_lower c"
  by (cases c) (auto simp: is_upper_def)

lemma str_lower_idem: "str_lower (str_lower s) = str_lower s"
  by (simp add: str_lower_def char_lower_idem)

text \<open>Lowercasing and stripping commute, so "lowercased, trimmed" has one meaning.\<close>

lemma str_strip_lower: "str_strip (str_lower s) = str_lower (str_strip s)"
  by (simp add: str_strip_def str_lower_def dropWhile_map rev_map comp_def is_space_char_lower)

lemma dropWhile_hd_id: "xs \<noteq> [] \<Longrightarrow> \<not> P (hd xs) \<Longrightarrow> dropWhile P xs = xs"
  by (cases xs) auto

lemma last_dropWhile_keep: "dropWhile P xs \<noteq> [] \<Longrightarrow> last (dropWhile P xs) = last xs"
  by (induction xs) (auto split: if_splits)

lemma str_strip_ends:
  assumes "str_strip s \<noteq> []"
  shows "\<not> is_space (hd (str_strip s)) \<and> \<not> is_space (last (str_strip s))"
proof -
  let ?u = "dropWhile is_space s"
  let ?w = "dropWhile is_space (rev ?u)"
  from assms have w: "?w \<noteq> []" by (simp add: str_strip_def)
  then have u: "?u \<noteq> []" by fastforce
  have "\<not> is_space (hd ?w)" using w by (rule hd_dropWhile)
  moreover have "last ?w = last (rev ?u)" using w by (rule last_dropWhile_keep)
  then have "last ?w = hd ?u" using u by (simp add: last_rev)
  moreover have "\<not> is_space (hd ?u)" using u by (rule hd_dropWhile)
  ultimately show ?thesis using w by (simp add: str_strip_def hd_rev last_rev)
qed

lemma str_strip_fixed:
  assumes "t = [] \<or> (\<not> is_space (hd t) \<and> \<not> is_space (last t))"
  shows "str_strip t = t"
proof (cases "t = []")
  case True
  then show ?thesis by (simp add: str_strip_def)
next
  case False
  with assms have h: "\<not> is_space (hd t)" and l: "\<not> is_space (last t)" by auto
  have "dropWhile is_space t = t" using False h by (rule dropWhile_hd_id)
  moreover have "dropWhile is_space (rev t) = rev t"
    using False l by (intro dropWhile_hd_id) (simp_all add: hd_rev)
  ultimately show ?thesis by (simp add: str_strip_def)
qed

lemma str_strip_idem: "str_strip (str_strip s) = str_strip s"
  using str_strip_ends [of s] by (intro str_strip_fixed) blast

text \<open>\<open>str_contains\<close> is the substring relation.\<close>

lemma str_startswith_iff: "str_startswith sub s \<longleftrightarrow> (\<exists>q. s = sub @ q)"
  by (induction sub s rule: str_startswith.induct) auto

lemma str_contains_iff: "str_contains sub s \<longleftrightarrow> (\<exists>p q. s = p @ sub @ q)"
proof (induction s)
  case Nil
  then show ?case by auto
next
  case (Cons c cs)
  show ?case
  proof
    assume "str_contains sub (c # cs)"
    then consider "str_startswith sub (c # cs)" | "str_contains sub cs" by auto
    then show "\<exists>p q. c # cs = p @ sub @ q"
    proof cases
      case 1
      then obtain q where "c # cs = sub @ q" by (auto simp: str_startswith_iff)
      then have "c # cs = [] @ sub @ q" by simp
      then show ?thesis by blast
    next
      case 2
      then obtain p q where "cs = p @ sub @ q" using Cons.IH by auto
      then have "c # cs = (c # p) @ sub @ q" by simp
      then show ?thesis by blast
    qed
  next
    assume "\<exists>p q. c # cs = p @ sub @ q"
    then obtain p q where pq: "c # cs = p @ sub @ q" by blast
    show "str_contains sub (c # cs)"
    proof (cases p)
      case Nil
      with pq have "str_startswith sub (c # cs)" by (auto simp: str_startswith_iff)
      then show ?thesis by simp
    next
      case (Cons a p')
      with pq have "cs = p' @ sub @ q" by simp
      then have "str_contains sub cs" using Cons.IH by blast
      then show ?thesis by simp
    qed
  qed
qed

section \<open>Budget normalisation\<close>

lemma normalize_low: "normalize_budget_level ''low'' = ''low''"
  by (simp add: normalize_budget_level_def str_eval)

lemma normalize_high: "normalize_budget_level ''high'' = ''high''"
  by (simp add: normalize_budget_level_def str_eval)

lemma normalize_medium: "normalize_budget_level ''medium'' = ''medium''"
  by (simp add: normalize_budget_level_def str_eval)

lemma normalize_range: "normalize_budget_level s \<in> {''low'', ''high'', ''medium''}"
  by (simp add: normalize_budget_level_def Let_def)

lemma normalize_idem: "normalize_budget_level (normalize_budget_level s) = normalize_budget_level s"
  using normalize_range [of s] normalize_low normalize_high normalize_medium by auto

lemma score_attraction_budget:
  "normalize_budget_level b = normalize_budget_level b'
   \<Longrightarrow> score_attraction a interests trip_type b = score_attraction a interests trip_type b'"
  by (simp add: score_attraction_def)

text \<open>
  C7, as stated, asks that every string whose lowercased, trimmed form contains "high" be
  mapped to "high". The test for "low" comes first in the code, so a string that
  contains both words is mapped to "low".
\<close>

theorem normalize_budget_level_counterexample:
  "str_contains ''high'' (str_lower (str_strip ''low to high''))
   \<and> normalize_budget_level ''low to high'' \<noteq> ''high''"
  by (simp add: normalize_budget_level_def str_eval)

text \<open>
  C7 (amended). \<open>normalize_budget_level\<close> is total with values "low", "high" and
  "medium", and idempotent. A string whose lowercased, trimmed form contains "low" is
  mapped to "low"; one that contains "high" and not "low" is mapped to "high"; every
  other string, the empty string and "medium" among them, is mapped to "medium". The
  daily cost and the score depend on the budget string through this normalisation only.
\<close>

theorem normalize_budget_level_spec:
  "normalize_budget_level s \<in> {''low'', ''high'', ''medium''}
   \<and> normalize_budget_level (normalize_budget_level s) = normalize_budget_level s
   \<and> (str_contains ''low'' (str_lower (str_strip s)) \<longrightarrow> normalize_budget_level s = ''low'')
   \<and> (str_contains ''high'' (str_lower (str_strip s)) \<and> \<not> str_contains ''low'' (str_lower (str_strip s))
        \<longrightarrow> normalize_budget_level s = ''high'')
   \<and> (\<not> str_contains ''high'' (str_lower (str_strip s)) \<and> \<not> str_contains ''low'' (str_lower (str_strip s))
        \<longrightarrow> normalize_budget_level s = ''medium'')
   \<and> normalize_budget_level [] = ''medium''
   \<and> normalize_budget_level ''medium'' = ''medium''
   \<and> estimate_daily_cost s =
        (if normalize_budget_level s = ''low'' then 1500
         else if normalize_budget_level s = ''high'' then 4000 else 2500)
   \<and> (normalize_budget_level s = normalize_budget_level s'
        \<longrightarrow> estimate_daily_cost s = estimate_daily_cost s'
            \<and> score_attraction a interests trip_type s = score_attraction a interests trip_type s')"
proof -
  have cases3:
    "(str_contains ''low'' (str_lower (str_strip s)) \<longrightarrow> normalize_budget_level s = ''low'')
     \<and> (str_contains ''high'' (str_lower (str_strip s)) \<and> \<not> str_contains ''low'' (str_lower (str_strip s))
          \<longrightarrow> normalize_budget_level s = ''high'')
     \<and> (\<not> str_contains ''high'' (str_lower (str_strip s)) \<and> \<not> str_contains ''low'' (str_lower (str_strip s))
          \<longrightarrow> normalize_budget_level s = ''medium'')"
    by (simp add: normalize_budget_level_def Let_def)
  have empty: "normalize_budget_level [] = ''medium''"
    by (simp add: normalize_budget_level_def str_eval)
  have cost: "estimate_daily_cost s =
        (if normalize_budget_level s = ''low'' then 1500
         else if normalize_budget_level s = ''high'' then 4000 else 2500)"
    by (simp add: estimate_daily_cost_def Let_def)
  have shared: "normalize_budget_level s = normalize_budget_level s'
        \<longrightarrow> estimate_daily_cost s = estimate_daily_cost s'
            \<and> score_attraction a interests trip_type s = score_attraction a interests trip_type s'"
    using score_attraction_budget [of s s' a interests trip_type]
    by (simp add: estimate_daily_cost_def)
  show ?thesis
    using normalize_range [of s] normalize_idem [of s] cases3 empty normalize_medium cost shared
    by blast
qed

theorem normalize_budget_level_spec_witness:
  "normalize_budget_level '' Very HIGH '' = ''high''
   \<and> normalize_budget_level ''Low budget'' = ''low''
   \<and> estimate_daily_cost '' Very HIGH '' = estimate_daily_cost ''high''"
proof -
  have h: "str_contains ''high'' (str_lower (str_strip '' Very HIGH ''))
           \<and> \<not> str_contains ''low'' (str_lower (str_strip '' Very HIGH ''))"
    by (simp add: str_eval)
  have l: "str_contains ''low'' (str_lower (str_strip ''Low budget''))"
    by (simp add: str_eval)
  have a: "normalize_budget_level '' Very HIGH '' = ''high''"
    using h normalize_budget_level_spec [of "'' Very HIGH ''"] by blast
  have b: "normalize_budget_level ''Low budget'' = ''low''"
    using l normalize_budget_level_spec [of "''Low budget''"] by blast
  have "normalize_budget_level '' Very HIGH '' = normalize_budget_level ''high''"
    using a normalize_high by simp
  then have c: "estimate_daily_cost '' Very HIGH '' = estimate_daily_cost ''high''"
    using normalize_budget_level_spec [of "'' Very HIGH ''" "''high''"] by blast
  show ?thesis using a b c by simp
qed

section \<open>Dictionaries, slices and ranges\<close>

lemma dict_get_Some: "map_of d k = Some v \<Longrightarrow> dict_get d k dflt = v"
  by (simp add: dict_get_def)

lemma map_of_dict_set: "map_of (dict_set d k v) k' = (if k' = k then Some v else map_of d k')"
  by (induction d) auto

lemma py_slice_nonneg:
  assumes "0 \<le> lo" and "lo \<le> hi"
  shows "py_slice xs lo hi = take (nat (hi - lo)) (drop (nat lo) xs)"
proof -
  have lo: "slice_bound (length xs) lo = min (nat lo) (length xs)"
    using assms by (simp add: slice_bound_def)
  have hi: "slice_bound (length xs) hi = min (nat hi) (length xs)"
    using assms by (simp add: slice_bound_def)
  have nd: "nat (hi - lo) = nat hi - nat lo" using assms by (simp add: nat_diff_distrib)
  show ?thesis
  proof (cases "nat hi \<le> length xs")
    case True
    then show ?thesis using nd assms by (simp add: py_slice_def lo hi min_def)
  next
    case False
    let ?b = "min (nat lo) (length xs)"
    have l: "py_slice xs lo hi = take (length xs - ?b) (drop ?b xs)"
      using False by (simp add: py_slice_def lo hi)
    have "take (length xs - ?b) (drop ?b xs) = drop ?b xs" by simp
    moreover have "drop ?b xs = drop (nat lo) xs"
      by (cases "nat lo \<le> length xs") (simp_all add: min_def)
    moreover have "length xs - nat lo \<le> nat hi - nat lo" using False by arith
    then have "take (nat (hi - lo)) (drop (nat lo) xs) = drop (nat lo) xs"
      using nd by simp
    ultimately show ?thesis using l by simp
  qed
qed

lemma py_slice_prefix: "0 \<le> m \<Longrightarrow> py_slice xs 0 m = take (nat m) xs"
  using py_slice_nonneg [of 0 m xs] by simp

lemma upto_as_map: "[1..d] = map (\<lambda>j. 1 + int j) [0..<nat d]"
proof (induction "nat d" arbitrary: d)
  case 0
  then show ?case by simp
next
  case (Suc n)
  then have d: "1 \<le> d" and n: "n = nat (d - 1)" by auto
  have "[1..d] = [1..d - 1] @ [d]" using d by (simp add: upto_rec2)
  also have "\<dots> = map (\<lambda>j. 1 + int j) [0..<n] @ [d]" using Suc.hyps(1) [OF n] n by simp
  also have "\<dots> = map (\<lambda>j. 1 + int j) [0..<Suc n]" using d n by simp
  finally show ?case using Suc.hyps(2) by simp
qed

lemma take_one_drop: "take (Suc 0) (drop i xs) = (if i < length xs then [xs ! i] else [])"
  by (simp add: Cons_nth_drop_Suc [symmetric])

lemma concat_chunks: "concat (map (\<lambda>j. take pd (drop (j * pd) xs)) [0..<m]) = take (m * pd) xs"
proof (induction m)
  case 0
  then show ?case by simp
next
  case (Suc m)
  have "take (Suc m * pd) xs = take (m * pd + pd) xs" by (simp add: add.commute)
  also have "\<dots> = take (m * pd) xs @ take pd (drop (m * pd) xs)" by (rule take_add)
  finally show ?case using Suc by simp
qed

section \<open>Facts about the float operations\<close>

text \<open>\<open>float_exponent\<close> is the binary exponent: \<open>2^e \<le> x < 2^(e + 1)\<close>.\<close>

lemma bit_length_bounds: "0 < n \<Longrightarrow> 2 ^ (bit_length n - 1) \<le> n \<and> n < 2 ^ bit_length n"
proof (induction n rule: bit_length.induct)
  case (1 n)
  show ?case
  proof (cases "n div 2 = 0")
    case True
    with "1.prems" have "n = 1" by auto
    then show ?thesis by (simp add: bit_length.simps)
  next
    case False
    then have pos: "0 < n div 2" by simp
    have bl: "bit_length n = Suc (bit_length (n div 2))"
      using "1.prems" by (simp add: bit_length.simps [of n])
    have ih: "2 ^ (bit_length (n div 2) - 1) \<le> n div 2 \<and> n div 2 < 2 ^ bit_length (n div 2)"
      using "1.IH" "1.prems" pos by simp
    have bp: "0 < bit_length (n div 2)" using pos by (simp add: bit_length.simps [of "n div 2"])
    then have "(2::nat) ^ bit_length (n div 2) = 2 * 2 ^ (bit_length (n div 2) - 1)"
      by (cases "bit_length (n div 2)") simp_all
    moreover have "2 * (n div 2) \<le> n" by simp
    ultimately have "2 ^ bit_length (n div 2) \<le> n" using ih by linarith
    moreover have "n < 2 * (n div 2) + 2" by presburger
    then have "n < 2 * 2 ^ bit_length (n div 2)" using ih by linarith
    ultimately show ?thesis by (simp add: bl)
  qed
qed

lemma float_exponent_le:
  assumes "0 < x"
  shows "2 powi (float_exponent x) \<le> x"
proof (cases "1 \<le> x")
  case True
  let ?n = "nat \<lfloor>x\<rfloor>"
  have n: "0 < ?n" using True by simp
  have "2 ^ (bit_length ?n - 1) \<le> ?n" using bit_length_bounds [OF n] by simp
  then have "(2::real) ^ (bit_length ?n - 1) \<le> real ?n"
    by (metis of_nat_le_iff of_nat_numeral of_nat_power)
  also have "real ?n \<le> x" using True by simp
  finally have le: "(2::real) ^ (bit_length ?n - 1) \<le> x" .
  have bp: "0 < bit_length ?n" using n by (simp add: bit_length.simps [of ?n])
  then have "int (bit_length ?n) - 1 = int (bit_length ?n - 1)" by simp
  then have "float_exponent x = int (bit_length ?n - 1)"
    using True by (simp only: float_exponent_def if_True)
  then have "(2::real) powi (float_exponent x) = 2 ^ (bit_length ?n - 1)"
    by (simp only: power_int_of_nat)
  then show ?thesis using le by (simp only:)
next
  case False
  let ?m = "nat (\<lceil>1 / x\<rceil> - 1)"
  let ?k = "bit_length ?m"
  have gt: "1 < 1 / x" using False assms by simp
  then have c: "2 \<le> \<lceil>1 / x\<rceil>" by linarith
  then have m: "0 < ?m" by simp
  have "?m < 2 ^ ?k" using bit_length_bounds [OF m] by simp
  then have "int ?m < 2 ^ ?k" by (metis of_nat_less_iff of_nat_numeral of_nat_power)
  moreover have "0 \<le> \<lceil>1 / x\<rceil> - 1" using c by linarith
  then have "int ?m = \<lceil>1 / x\<rceil> - 1" by (rule nat_0_le)
  ultimately have "\<lceil>1 / x\<rceil> \<le> 2 ^ ?k" by linarith
  then have "1 / x \<le> 2 ^ ?k" by (simp add: ceiling_le_iff)
  then have "1 \<le> 2 ^ ?k * x" using assms by (simp add: field_simps)
  then have "1 / 2 ^ ?k \<le> x" by (simp add: field_simps)
  moreover have "float_exponent x = - int ?k"
    using False by (simp only: float_exponent_def if_False)
  then have "(2::real) powi (float_exponent x) = inverse (2 ^ ?k)"
    by (simp only: power_int_minus power_int_of_nat)
  ultimately show ?thesis by (simp only: inverse_eq_divide)
qed

lemma float_exponent_gt:
  assumes "0 < x"
  shows "x < 2 powi (float_exponent x + 1)"
proof (cases "1 \<le> x")
  case True
  let ?n = "nat \<lfloor>x\<rfloor>"
  have n: "0 < ?n" using True by simp
  have "?n < 2 ^ bit_length ?n" using bit_length_bounds [OF n] by simp
  then have "int ?n < 2 ^ bit_length ?n" by (metis of_nat_less_iff of_nat_numeral of_nat_power)
  moreover have "int ?n = \<lfloor>x\<rfloor>" using True by simp
  ultimately have "\<lfloor>x\<rfloor> + 1 \<le> 2 ^ bit_length ?n" by linarith
  then have "(of_int (\<lfloor>x\<rfloor> + 1) :: real) \<le> of_int (2 ^ bit_length ?n)"
    by (simp only: of_int_le_iff)
  then have "of_int \<lfloor>x\<rfloor> + 1 \<le> (2::real) ^ bit_length ?n" by simp
  moreover have "x < of_int \<lfloor>x\<rfloor> + 1" by linarith
  ultimately have lt: "x < 2 ^ bit_length ?n" by linarith
  have "float_exponent x + 1 = int (bit_length ?n)"
    using True by (simp add: float_exponent_def)
  then have "(2::real) powi (float_exponent x + 1) = 2 ^ bit_length ?n"
    by (simp only: power_int_of_nat)
  then show ?thesis using lt by (simp only:)
next
  case False
  let ?m = "nat (\<lceil>1 / x\<rceil> - 1)"
  let ?k = "bit_length ?m"
  have gt: "1 < 1 / x" using False assms by simp
  then have c: "2 \<le> \<lceil>1 / x\<rceil>" by linarith
  then have m: "0 < ?m" by simp
  have kp: "0 < ?k" using m by (simp add: bit_length.simps [of ?m])
  have "2 ^ (?k - 1) \<le> ?m" using bit_length_bounds [OF m] by simp
  then have "(2::int) ^ (?k - 1) \<le> int ?m" by (metis of_nat_le_iff of_nat_numeral of_nat_power)
  moreover have "0 \<le> \<lceil>1 / x\<rceil> - 1" using c by linarith
  then have "int ?m = \<lceil>1 / x\<rceil> - 1" by (rule nat_0_le)
  ultimately have "(2::int) ^ (?k - 1) \<le> \<lceil>1 / x\<rceil> - 1" by linarith
  then have "(of_int (2 ^ (?k - 1)) :: real) \<le> of_int (\<lceil>1 / x\<rceil> - 1)"
    by (simp only: of_int_le_iff)
  then have "(2::real) ^ (?k - 1) \<le> of_int \<lceil>1 / x\<rceil> - 1" by simp
  moreover have "of_int \<lceil>1 / x\<rceil> - 1 < 1 / x" by linarith
  ultimately have "2 ^ (?k - 1) < 1 / x" by linarith
  then have "2 ^ (?k - 1) * x < 1" using assms by (simp add: field_simps)
  then have lt: "x < 1 / 2 ^ (?k - 1)" by (simp add: field_simps)
  have "float_exponent x + 1 = - int (?k - 1)"
    using False kp by (simp add: float_exponent_def)
  then have "(2::real) powi (float_exponent x + 1) = inverse (2 ^ (?k - 1))"
    by (simp only: power_int_minus power_int_of_nat)
  then show ?thesis using lt by (simp only: inverse_eq_divide)
qed

lemma float_exponent_less:
  assumes "0 < x" and "x < 2 ^ E"
  shows "float_exponent x < int E"
proof -
  have "2 powi (float_exponent x) \<le> x" using assms(1) by (rule float_exponent_le)
  then have "(2::real) powi (float_exponent x) < 2 powi (int E)" using assms(2) by simp
  then show ?thesis by (rule power_int_le_imp_less_exp [rotated]) simp_all
qed

lemma round_half_even_error: "\<bar>of_int (round_half_even r) - r\<bar> \<le> 1 / 2"
proof -
  have "of_int \<lfloor>r\<rfloor> \<le> r" and "r < of_int \<lfloor>r\<rfloor> + 1" by linarith+
  then show ?thesis
    unfolding round_half_even_def Let_def by (simp add: abs_if) linarith
qed

lemma round_half_even_int: "round_half_even (of_int n) = n"
  by (simp add: round_half_even_def)

lemma round_half_even_le:
  assumes "r \<le> of_int n"
  shows "round_half_even r \<le> n"
proof (cases "r = of_int n")
  case True
  then show ?thesis by (simp add: round_half_even_int)
next
  case False
  then have "r < of_int n" using assms by simp
  then have "\<lfloor>r\<rfloor> < n" by (simp add: floor_less_iff)
  then have "\<lfloor>r\<rfloor> + 1 \<le> n" by simp
  moreover have "round_half_even r \<le> \<lfloor>r\<rfloor> + 1"
    unfolding round_half_even_def Let_def by simp
  ultimately show ?thesis by linarith
qed

lemma round_half_even_nonneg:
  assumes "0 \<le> r"
  shows "0 \<le> round_half_even r"
proof -
  have "0 \<le> \<lfloor>r\<rfloor>" using assms by simp
  moreover have "\<lfloor>r\<rfloor> \<le> round_half_even r"
    unfolding round_half_even_def Let_def by simp
  ultimately show ?thesis by linarith
qed

text \<open>The spacing of the doubles around a number.\<close>

lemma round_double_unfold:
  assumes "x \<noteq> 0"
  shows "\<exists>j. - 1074 \<le> j \<and> j = max (float_exponent \<bar>x\<bar> - 52) (- 1074)
           \<and> round_double x = of_int (round_half_even (x / 2 powi j)) * 2 powi j"
  using assms by (simp add: round_double_def Let_def)

lemma round_double_error:
  assumes "\<bar>x\<bar> < 2 ^ E"
  shows "\<bar>round_double x - x\<bar> \<le> 2 ^ E / 2 ^ 54"
proof (cases "x = 0")
  case True
  then show ?thesis by (simp add: round_double_def)
next
  case False
  then obtain j where j: "j = max (float_exponent \<bar>x\<bar> - 52) (- 1074)"
    and r: "round_double x = of_int (round_half_even (x / 2 powi j)) * 2 powi j"
    using round_double_unfold by blast
  let ?q = "(2::real) powi j"
  have qpos: "0 < ?q" by simp
  have "float_exponent \<bar>x\<bar> < int E" using False assms by (intro float_exponent_less) simp_all
  then have jle: "j \<le> int E - 53" using j by simp
  have "?q \<le> 2 powi (int E - 53)" using jle by (intro power_int_increasing) simp_all
  also have "\<dots> = 2 ^ E / 2 ^ 53" by (simp add: power_int_diff)
  finally have qle: "?q \<le> 2 ^ E / 2 ^ 53" .
  have "round_double x - x = (of_int (round_half_even (x / ?q)) - x / ?q) * ?q"
    using r qpos by (simp add: field_simps)
  then have "\<bar>round_double x - x\<bar> = \<bar>of_int (round_half_even (x / ?q)) - x / ?q\<bar> * ?q"
    using qpos by (simp add: abs_mult)
  also have "\<dots> \<le> (1 / 2) * ?q"
    using round_half_even_error [of "x / ?q"] qpos by (intro mult_right_mono) simp_all
  also have "\<dots> \<le> (1 / 2) * (2 ^ E / 2 ^ 53)" using qle by simp
  finally show ?thesis by simp
qed


lemma power_int_neg_exponent:
  assumes "j \<le> - 1"
  shows "\<exists>k. (2::real) powi j = 1 / 2 ^ Suc k"
proof -
  have "j = - int (Suc (nat (- 1 - j)))" using assms by simp
  then have "(2::real) powi j = inverse (2 ^ Suc (nat (- 1 - j)))"
    by (metis power_int_minus power_int_of_nat)
  then show ?thesis by (auto simp only: inverse_eq_divide)
qed

text \<open>A multiple of one half below \<open>2^52\<close> is a double.\<close>

lemma round_double_half:
  assumes "\<bar>of_int m / 2\<bar> < (2::real) ^ 52"
  shows "round_double (of_int m / 2) = of_int m / 2"
proof (cases "m = 0")
  case True
  then show ?thesis by (simp add: round_double_def)
next
  case False
  let ?x = "of_int m / 2 :: real"
  have nz: "?x \<noteq> 0" using False by simp
  then obtain j where j: "j = max (float_exponent \<bar>?x\<bar> - 52) (- 1074)"
    and r: "round_double ?x = of_int (round_half_even (?x / 2 powi j)) * 2 powi j"
    using round_double_unfold by blast
  have "float_exponent \<bar>?x\<bar> < int 52" using nz assms by (intro float_exponent_less) simp_all
  then have "j \<le> - 1" using j by simp
  then obtain k where k: "(2::real) powi j = 1 / 2 ^ Suc k"
    using power_int_neg_exponent by blast
  have "?x / 2 powi j = of_int (m * 2 ^ k)" by (simp add: k)
  then have "round_half_even (?x / 2 powi j) = m * 2 ^ k" by (simp only: round_half_even_int)
  then show ?thesis using r by (simp add: k)
qed

lemma round_double_half_grid:
  assumes "2 * x \<in> \<int>" and "\<bar>x\<bar> < 2 ^ 52"
  shows "round_double x = x"
proof -
  from assms(1) obtain m where "2 * x = of_int m" by (auto elim: Ints_cases)
  then have x: "x = of_int m / 2" by simp
  have "\<bar>of_int m / 2\<bar> < (2::real) ^ 52" using assms(2) unfolding x .
  then have "round_double (of_int m / 2) = of_int m / 2" by (rule round_double_half)
  then show ?thesis unfolding x .
qed

text \<open>Rounding does not pass the double 2.5, and keeps the sign.\<close>

lemma round_double_cap:
  assumes "y \<le> 5 / 2"
  shows "round_double y \<le> 5 / 2"
proof (cases "y = 0")
  case True
  then show ?thesis by (simp add: round_double_def)
next
  case False
  then obtain j where j: "j = max (float_exponent \<bar>y\<bar> - 52) (- 1074)"
    and r: "round_double y = of_int (round_half_even (y / 2 powi j)) * 2 powi j"
    using round_double_unfold by blast
  let ?q = "(2::real) powi j"
  have qpos: "0 < ?q" by simp
  show ?thesis
  proof (cases "y < 0")
    case True
    then have "y / ?q \<le> of_int 0" using qpos by (simp add: field_simps)
    then have "round_half_even (y / ?q) \<le> 0" by (rule round_half_even_le)
    then have "of_int (round_half_even (y / ?q)) * ?q \<le> 0"
      using qpos by (simp add: mult_le_0_iff)
    then show ?thesis using r by simp
  next
    case nonneg: False
    then have pos: "0 < y" using False by simp
    have "\<bar>y\<bar> < 2 ^ 2" using pos assms by simp
    then have "float_exponent \<bar>y\<bar> < int 2" using pos by (intro float_exponent_less) simp_all
    then have "j \<le> - 1" using j by simp
    then obtain k where k: "?q = 1 / 2 ^ Suc k"
      using power_int_neg_exponent by blast
    have "y / ?q \<le> (5 / 2) / ?q" using assms qpos by (intro divide_right_mono) simp_all
    also have "(5 / 2) / ?q = of_int (5 * 2 ^ k)" by (simp add: k)
    finally have "round_half_even (y / ?q) \<le> 5 * 2 ^ k" by (rule round_half_even_le)
    then have "(of_int (round_half_even (y / ?q)) :: real) \<le> of_int (5 * 2 ^ k)"
      by (simp only: of_int_le_iff)
    then have "of_int (round_half_even (y / ?q)) * ?q \<le> of_int (5 * 2 ^ k) * ?q"
      using qpos by (simp only: mult_le_cancel_right_pos)
    also have "of_int (5 * 2 ^ k) * ?q = 5 / 2" by (simp add: k)
    finally show ?thesis using r by simp
  qed
qed

lemma round_double_nonneg:
  assumes "0 \<le> y"
  shows "0 \<le> round_double y"
proof (cases "y = 0")
  case True
  then show ?thesis by (simp add: round_double_def)
next
  case False
  then obtain j where r: "round_double y = of_int (round_half_even (y / 2 powi j)) * 2 powi j"
    using round_double_unfold by blast
  have "0 \<le> y / 2 powi j" using assms by simp
  then have "0 \<le> round_half_even (y / 2 powi j)" by (rule round_half_even_nonneg)
  then show ?thesis using r by simp
qed

section \<open>Scoring\<close>

lemma fadd_half_grid:
  assumes "2 * x \<in> \<int>" and "2 * y \<in> \<int>" and "\<bar>x + y\<bar> < 2 ^ 52"
  shows "fadd x y = x + y"
proof -
  have "2 * x + 2 * y \<in> \<int>" using assms(1,2) by (rule Ints_add)
  then have "2 * (x + y) \<in> \<int>" by (simp only: distrib_left)
  then show ?thesis unfolding fadd_def using assms(3) by (rule round_double_half_grid)
qed

lemma fsub_half_grid:
  assumes "2 * x \<in> \<int>" and "2 * y \<in> \<int>" and "\<bar>x - y\<bar> < 2 ^ 52"
  shows "fsub x y = x - y"
proof -
  have "2 * x - 2 * y \<in> \<int>" using assms(1,2) by (rule Ints_diff)
  then have "2 * (x - y) \<in> \<int>" by (simp only: right_diff_distrib)
  then show ?thesis unfolding fsub_def using assms(3) by (rule round_double_half_grid)
qed

text \<open>The loop over the interests adds exactly 2 for each match, below \<open>2^52\<close>.\<close>

lemma interest_loop_count:
  assumes "2 * sc \<in> \<int>" and "\<bar>sc\<bar> + 2 * real (length interests) < 2 ^ 52"
  shows "interest_loop tgs interests sc =
           sc + 2 * real (length (filter (\<lambda>i. str_contains (str_strip (str_lower i)) tgs) interests))"
  using assms
proof (induction interests arbitrary: sc)
  case Nil
  then show ?case by simp
next
  case (Cons i rest)
  show ?case
  proof (cases "str_contains (str_strip (str_lower i)) tgs")
    case True
    have two: "2 * (2::real) \<in> \<int>" by simp
    have bound: "\<bar>sc + 2\<bar> < 2 ^ 52" using Cons.prems(2) by simp
    have st: "fadd sc 2 = sc + 2" using Cons.prems(1) two bound by (rule fadd_half_grid)
    have g: "2 * (sc + 2) \<in> \<int>" using Cons.prems(1) by (simp add: distrib_left)
    have b: "\<bar>sc + 2\<bar> + 2 * real (length rest) < 2 ^ 52" using Cons.prems(2) by simp
    show ?thesis using True Cons.IH [OF g b] by (simp add: st)
  next
    case False
    have b: "\<bar>sc\<bar> + 2 * real (length rest) < 2 ^ 52" using Cons.prems(2) by simp
    show ?thesis using False Cons.IH [OF Cons.prems(1) b] by simp
  qed
qed

text \<open>
  The adjustments for the interests, the trip type and the budget are multiples of one
  half, so the float operations on them are exact.
\<close>

lemma spec_adjustments_grid:
  "2 * spec_adjustments a interests trip_type budget_level \<in> \<int>"
  by (simp add: spec_adjustments_def distrib_left)

lemma spec_adjustments_bound:
  "\<bar>spec_adjustments a interests trip_type budget_level\<bar> \<le> 2 * real (length interests) + 5 / 2"
proof -
  define k where "k = real (length (filter (\<lambda>i. str_contains (str_strip (str_lower i)) (str_lower (tags a))) interests))"
  define n where "n = real (length interests)"
  have "length (filter (\<lambda>i. str_contains (str_strip (str_lower i)) (str_lower (tags a))) interests)
          \<le> length interests" by (rule length_filter_le)
  then have kn: "k \<le> n" unfolding k_def n_def by (simp only: of_nat_le_iff)
  have k0: "0 \<le> k" unfolding k_def by simp
  have ar: "\<bar>2 * k + (if c1 then - 1 else 0) + (if c2 then 1 else 0) + (if c3 then 1.5 else 0)\<bar>
              \<le> 2 * n + 5 / 2" for c1 c2 c3
    using kn k0 by (simp add: abs_if)
  show ?thesis unfolding spec_adjustments_def k_def [symmetric] n_def [symmetric] by (rule ar)
qed

lemma score_attraction_adjustments:
  assumes "2 * real (length interests) + 4 < 2 ^ 52"
  shows "score_attraction a interests trip_type budget_level =
           fadd (fadd (spec_adjustments a interests trip_type budget_level)
                      (fmul (rating a) (round_double 0.8)))
                (fmul (min (review_count_lakhs a) 5) 0.5)"
proof -
  let ?tgs = "str_lower (tags a)"
  define k where "k = real (length (filter (\<lambda>i. str_contains (str_strip (str_lower i)) ?tgs) interests))"
  define n where "n = real (length interests)"
  let ?c1 = "str_contains ''family'' (str_lower trip_type) \<and> str_contains ''nightlife'' ?tgs"
  let ?c2 = "str_contains ''couple'' (str_lower trip_type) \<and> str_contains ''romantic'' ?tgs"
  let ?c3 = "(normalize_budget_level budget_level = ''low'' \<and> str_lower (cost_level a) = ''low'')
           \<or> (normalize_budget_level budget_level = ''high'' \<and> str_lower (cost_level a) = ''high'')"
  have "length (filter (\<lambda>i. str_contains (str_strip (str_lower i)) ?tgs) interests) \<le> length interests"
    by (rule length_filter_le)
  then have kn: "k \<le> n" unfolding k_def n_def by (simp only: of_nat_le_iff)
  have k0: "0 \<le> k" unfolding k_def by simp
  define P where "P = (2::real) ^ 52"
  have nb: "2 * n + 4 < P" using assms unfolding n_def P_def .
  have kz: "2 * (2 * k) \<in> \<int>" unfolding k_def by simp
  have s1: "interest_loop ?tgs interests 0 = 2 * k"
    using interest_loop_count [of 0 interests ?tgs] assms unfolding k_def by simp
  define s2 where "s2 = (if ?c1 then 2 * k - 1 else 2 * k)"
  have s2g: "2 * s2 \<in> \<int>" using kz by (simp add: s2_def right_diff_distrib)
  have s2b: "\<bar>s2\<bar> \<le> 2 * n + 1" using kn k0 by (auto simp: s2_def)
  have f2: "fsub (2 * k) 1 = 2 * k - 1"
  proof -
    have "\<bar>2 * k - 1\<bar> < P" using kn k0 nb by linarith
    then have "\<bar>2 * k - 1\<bar> < 2 ^ 52" unfolding P_def .
    then show ?thesis using kz by (intro fsub_half_grid) simp_all
  qed
  have e2: "(if ?c1 then fsub (2 * k) 1 else 2 * k) = s2"
    unfolding s2_def f2 ..
  define s3 where "s3 = (if ?c2 then s2 + 1 else s2)"
  have s3g: "2 * s3 \<in> \<int>" using s2g by (simp add: s3_def distrib_left)
  have s3b: "\<bar>s3\<bar> \<le> 2 * n + 2" using s2b by (auto simp: s3_def)
  have f3: "fadd s2 1 = s2 + 1"
  proof -
    have "\<bar>s2 + 1\<bar> < P" using s2b nb by linarith
    then have "\<bar>s2 + 1\<bar> < 2 ^ 52" unfolding P_def .
    then show ?thesis using s2g by (intro fadd_half_grid) simp_all
  qed
  have e3: "(if ?c2 then fadd s2 1 else s2) = s3"
    unfolding s3_def f3 ..
  define s4 where "s4 = (if ?c3 then s3 + 1.5 else s3)"
  have f4: "fadd s3 1.5 = s3 + 1.5"
  proof -
    have "\<bar>s3 + 1.5\<bar> < P" using s3b nb by linarith
    then have "\<bar>s3 + 1.5\<bar> < 2 ^ 52" unfolding P_def .
    then show ?thesis using s3g by (intro fadd_half_grid) simp_all
  qed
  have e4: "(if normalize_budget_level budget_level = ''low'' \<and> str_lower (cost_level a) = ''low''
             then fadd s3 1.5
             else if normalize_budget_level budget_level = ''high'' \<and> str_lower (cost_level a) = ''high''
             then fadd s3 1.5 else s3) = s4"
    unfolding s4_def f4 by auto
  have adj: "spec_adjustments a interests trip_type budget_level = s4"
    by (simp add: spec_adjustments_def s4_def s3_def s2_def k_def)
  have "score_attraction a interests trip_type budget_level =
          fadd (fadd s4 (fmul (rating a) (round_double 0.8)))
               (fmul (min (review_count_lakhs a) 5) 0.5)"
    unfolding score_attraction_def Let_def s1 e2 e3 e4 ..
  then show ?thesis by (simp only: adj)
qed

text \<open>The literal 0.8 is the double just above the decimal.\<close>

lemma round_double_literal:
  "round_double 0.8 = 3602879701896397 / 2 ^ 52"
  by code_simp

lemma rating_term_error:
  assumes "0 \<le> r" and "r \<le> 5"
  shows "\<bar>fmul r (round_double 0.8) - r * 0.8\<bar> \<le> 3 / 2 ^ 52"
proof -
  define c where "c = round_double 0.8"
  have c: "c = 0.8 + 1 / (5 * 2 ^ 52)" unfolding c_def round_double_literal by simp
  have c1: "0 \<le> c" and c2: "c \<le> 1" unfolding c by simp_all
  have "r * c \<le> 5 * 1" using assms c1 c2 by (intro mult_mono) simp_all
  moreover have "0 \<le> r * c" using assms(1) c1 by simp
  ultimately have "\<bar>r * c\<bar> < 2 ^ 3" by simp
  then have "\<bar>round_double (r * c) - r * c\<bar> \<le> 2 ^ 3 / 2 ^ 54" by (rule round_double_error)
  then have e1: "\<bar>fmul r c - r * c\<bar> \<le> 2 / 2 ^ 52" by (simp add: fmul_def)
  have eq: "r * c - r * 0.8 = r * (1 / (5 * 2 ^ 52))" unfolding c by (simp add: algebra_simps)
  have le: "r * (1 / (5 * 2 ^ 52)) \<le> 5 * (1 / (5 * 2 ^ 52))"
    using assms(2) by (intro mult_right_mono) simp_all
  have h: "5 * (1 / (5 * 2 ^ 52)) = (1::real) / 2 ^ 52" by simp
  have le': "r * (1 / (5 * 2 ^ 52)) \<le> 1 / 2 ^ 52" using le unfolding h .
  have nn: "0 \<le> r * (1 / (5 * 2 ^ 52))" using assms(1) by simp
  have "\<bar>r * (1 / (5 * 2 ^ 52))\<bar> \<le> 1 / 2 ^ 52" using le' nn by (simp only: abs_of_nonneg)
  then have e2: "\<bar>r * c - r * 0.8\<bar> \<le> 1 / 2 ^ 52" unfolding eq .
  have "\<bar>fmul r c - r * 0.8\<bar> \<le> \<bar>fmul r c - r * c\<bar> + \<bar>r * c - r * 0.8\<bar>" by linarith
  then have "\<bar>fmul r c - r * 0.8\<bar> \<le> 2 / 2 ^ 52 + 1 / 2 ^ 52" using e1 e2 by linarith
  then show ?thesis unfolding c_def by simp
qed

lemma review_term_error:
  assumes "0 \<le> v"
  shows "\<bar>fmul (min v 5) 0.5 - min v 5 * 0.5\<bar> \<le> 1 / 2 ^ 52"
proof -
  have "\<bar>min v 5 * 0.5\<bar> < 2 ^ 2" using assms by (simp add: min_def)
  then have "\<bar>round_double (min v 5 * 0.5) - min v 5 * 0.5\<bar> \<le> 2 ^ 2 / 2 ^ 54"
    by (rule round_double_error)
  then show ?thesis by (simp add: fmul_def)
qed

lemma review_term_cap: "fmul (min v 5) 0.5 \<le> 5 / 2"
  unfolding fmul_def by (rule round_double_cap) (simp add: min_def)

lemma review_term_nonneg: "0 \<le> v \<Longrightarrow> 0 \<le> fmul (min v 5) 0.5"
  unfolding fmul_def by (rule round_double_nonneg) (simp add: min_def)

text \<open>The float differs from the real sum by the rounding of two products and two sums.\<close>

lemma score_attraction_error:
  assumes "2 * real (length interests) + 16 \<le> 2 ^ E" and "E \<le> 52"
    and "0 \<le> rating a" and "rating a \<le> 5" and "0 \<le> review_count_lakhs a"
  shows "\<bar>score_attraction a interests trip_type budget_level
             - spec_score a interests trip_type budget_level\<bar> \<le> 2 ^ E / 2 ^ 52"
proof -
  define n where "n = real (length interests)"
  define T where "T = (2::real) ^ E"
  define u where "u = (1::real) / 2 ^ 54"
  define w where "w = T * u"
  define B where "B = spec_adjustments a interests trip_type budget_level"
  define R where "R = fmul (rating a) (round_double 0.8)"
  define V where "V = fmul (min (review_count_lakhs a) 5) 0.5"
  define r where "r = rating a * 0.8"
  define v where "v = min (review_count_lakhs a) 5 * 0.5"
  have n0: "0 \<le> n" unfolding n_def by simp
  have nT: "2 * n + 16 \<le> T" using assms(1) unfolding n_def T_def .
  have "(2::real) ^ E \<le> 2 ^ 52" using assms(2) by (intro power_increasing) simp_all
  then have T52: "T \<le> 2 ^ 52" unfolding T_def .
  have u0: "0 < u" unfolding u_def by simp
  have w1: "16 * u \<le> w" unfolding w_def using nT n0 u0 by simp
  have "T * u \<le> 2 ^ 52 * u" using T52 u0 by (intro mult_right_mono) simp_all
  then have w2: "w \<le> 1 / 4" unfolding w_def u_def by simp
  have u1: "u \<le> 1 / 64" unfolding u_def by simp
  have "2 * n + 4 < (2::real) ^ 52" using nT T52 by linarith
  then have sc: "score_attraction a interests trip_type budget_level = fadd (fadd B R) V"
    unfolding B_def R_def V_def n_def by (rule score_attraction_adjustments)
  have Bb: "\<bar>B\<bar> \<le> 2 * n + 5 / 2" unfolding B_def n_def by (rule spec_adjustments_bound)
  have "\<bar>R - r\<bar> \<le> 3 / 2 ^ 52" unfolding R_def r_def using assms(3,4) by (rule rating_term_error)
  then have eR: "\<bar>R - r\<bar> \<le> 12 * u" unfolding u_def by simp
  have r1: "0 \<le> r" and r2: "r \<le> 4" unfolding r_def using assms(3,4) by simp_all
  have "\<bar>V - v\<bar> \<le> 1 / 2 ^ 52" unfolding V_def v_def using assms(5) by (rule review_term_error)
  then have eV: "\<bar>V - v\<bar> \<le> 4 * u" unfolding u_def by simp
  have V1: "0 \<le> V" unfolding V_def using assms(5) by (rule review_term_nonneg)
  have V2: "V \<le> 5 / 2" unfolding V_def by (rule review_term_cap)
  have "\<bar>B + R\<bar> < T" using Bb eR r1 r2 u1 nT by linarith
  then have "\<bar>B + R\<bar> < 2 ^ E" unfolding T_def .
  then have "\<bar>round_double (B + R) - (B + R)\<bar> \<le> 2 ^ E / 2 ^ 54" by (rule round_double_error)
  then have e1: "\<bar>fadd B R - (B + R)\<bar> \<le> w" unfolding fadd_def w_def T_def u_def by simp
  have "\<bar>fadd B R + V\<bar> < T" using e1 Bb eR r1 r2 u1 nT V1 V2 w2 by linarith
  then have "\<bar>fadd B R + V\<bar> < 2 ^ E" unfolding T_def .
  then have "\<bar>round_double (fadd B R + V) - (fadd B R + V)\<bar> \<le> 2 ^ E / 2 ^ 54"
    by (rule round_double_error)
  then have e2: "\<bar>fadd (fadd B R) V - (fadd B R + V)\<bar> \<le> w"
    unfolding fadd_def [of "fadd B R" V] w_def T_def u_def by simp
  have "\<bar>fadd (fadd B R) V - (B + r + v)\<bar> \<le> 4 * w" using e1 e2 eR eV w1 by linarith
  moreover have "4 * w = 2 ^ E / 2 ^ 52" unfolding w_def T_def u_def by simp
  moreover have "spec_score a interests trip_type budget_level = B + r + v"
    unfolding spec_score_def B_def r_def v_def ..
  ultimately show ?thesis unfolding sc by simp
qed

lemma spec_score_more:
  assumes "str_contains (str_strip (str_lower i)) (str_lower (tags a))"
  shows "spec_score a (before @ i # after) trip_type budget_level =
           spec_score a (before @ after) trip_type budget_level + 2"
  using assms by (simp add: spec_score_def spec_adjustments_def)

lemma score_attraction_more:
  assumes "2 * real (length (before @ i # after)) + 16 \<le> 2 ^ E" and "E \<le> 52"
    and "0 \<le> rating a" and "rating a \<le> 5" and "0 \<le> review_count_lakhs a"
    and "str_contains (str_strip (str_lower i)) (str_lower (tags a))"
  shows "\<bar>score_attraction a (before @ i # after) trip_type budget_level
           - score_attraction a (before @ after) trip_type budget_level - 2\<bar> \<le> 2 ^ E / 2 ^ 51"
proof -
  have "2 * real (length (before @ after)) + 16 \<le> 2 * real (length (before @ i # after)) + 16"
    by simp
  then have l: "2 * real (length (before @ after)) + 16 \<le> 2 ^ E" using assms(1) by linarith
  have e1: "\<bar>score_attraction a (before @ i # after) trip_type budget_level
             - spec_score a (before @ i # after) trip_type budget_level\<bar> \<le> 2 ^ E / 2 ^ 52"
    using assms(1-5) by (rule score_attraction_error)
  have e2: "\<bar>score_attraction a (before @ after) trip_type budget_level
             - spec_score a (before @ after) trip_type budget_level\<bar> \<le> 2 ^ E / 2 ^ 52"
    using l assms(2-5) by (rule score_attraction_error)
  have "(2::real) ^ E / 2 ^ 51 = 2 * (2 ^ E / 2 ^ 52)" by simp
  then show ?thesis using e1 e2 spec_score_more [OF assms(6), of before after trip_type budget_level]
    by linarith
qed

text \<open>
  C4, as stated: \<^verbatim>\<open>score_attraction\<close> returns exactly the sum of the specification, and one
  more matching interest raises the score by exactly 2.0. The score is a float, and the
  float operations round. For an attraction tagged "Beach, Nightlife" with rating 0.5 and
  review count 4.0 the code returns the double 2.4 (\<open>5404319552844595 / 2^51\<close>, which is
  not the real number 2.4) without interests and the double 4.4
  (\<open>9907919180215092 / 2^51\<close>) with the matching interest "beach": the two differ by
  \<open>2 + 1 / 2^51\<close>, which Python prints as 2.0000000000000004.
\<close>

theorem score_attraction_counterexample:
  "str_contains (str_strip (str_lower ''beach'')) (str_lower (tags (attraction_of_doc arambol_beach)))
   \<and> score_attraction (attraction_of_doc arambol_beach) [] ''friends'' ''medium''
       = 5404319552844595 / 2 ^ 51
   \<and> score_attraction (attraction_of_doc arambol_beach) [''beach''] ''friends'' ''medium''
       = 9907919180215092 / 2 ^ 51
   \<and> spec_score (attraction_of_doc arambol_beach) [] ''friends'' ''medium'' = 2.4
   \<and> spec_score (attraction_of_doc arambol_beach) [''beach''] ''friends'' ''medium'' = 4.4
   \<and> score_attraction (attraction_of_doc arambol_beach) [] ''friends'' ''medium''
       \<noteq> spec_score (attraction_of_doc arambol_beach) [] ''friends'' ''medium''
   \<and> score_attraction (attraction_of_doc arambol_beach) [''beach''] ''friends'' ''medium''
       \<noteq> spec_score (attraction_of_doc arambol_beach) [''beach''] ''friends'' ''medium''
   \<and> score_attraction (attraction_of_doc arambol_beach) [''beach''] ''friends'' ''medium''
       - score_attraction (attraction_of_doc arambol_beach) [] ''friends'' ''medium'' \<noteq> 2
   \<and> fsub (score_attraction (attraction_of_doc arambol_beach) [''beach''] ''friends'' ''medium'')
            (score_attraction (attraction_of_doc arambol_beach) [] ''friends'' ''medium'')
       = 2 + 1 / 2 ^ 51"
proof -
  let ?a = "attraction_of_doc arambol_beach"
  have m: "str_contains (str_strip (str_lower ''beach'')) (str_lower (tags ?a))"
    by code_simp
  have s0: "score_attraction ?a [] ''friends'' ''medium'' = 5404319552844595 / 2 ^ 51"
    by code_simp
  have s1: "score_attraction ?a [''beach''] ''friends'' ''medium'' = 9907919180215092 / 2 ^ 51"
    by code_simp
  have p0: "spec_score ?a [] ''friends'' ''medium'' = 2.4"
    by code_simp
  have p1: "spec_score ?a [''beach''] ''friends'' ''medium'' = 4.4"
    by code_simp
  have n0: "score_attraction ?a [] ''friends'' ''medium'' \<noteq> spec_score ?a [] ''friends'' ''medium''"
    unfolding s0 p0 by simp
  have n1: "score_attraction ?a [''beach''] ''friends'' ''medium''
              \<noteq> spec_score ?a [''beach''] ''friends'' ''medium''"
    unfolding s1 p1 by simp
  have d: "score_attraction ?a [''beach''] ''friends'' ''medium''
             - score_attraction ?a [] ''friends'' ''medium'' \<noteq> 2"
    unfolding s0 s1 by simp
  have f: "fsub (9907919180215092 / 2 ^ 51) (5404319552844595 / 2 ^ 51) = 2 + 1 / 2 ^ 51"
    by code_simp
  show ?thesis using m s0 s1 p0 p1 n0 n1 d f by (simp only: simp_thms)
qed

text \<open>
  C4 (amended). For every attraction with a rating from 0 to 5 and a review count of at
  least 0, every list of at most \<open>2^51 - 8\<close> interests (\<open>2 * length + 16 \<le> 2^E\<close> with
  \<open>E \<le> 52\<close>), every trip type and budget string: the part of the score made of 2 for
  each interest whose lowercased, trimmed text is a substring of the lowercased tags, -1
  for "family" with "nightlife", +1 for "couple" with "romantic" and +1.5 for a budget
  and a (lowercased) cost level both "low" or both "high" is computed exactly, and
  \<^verbatim>\<open>score_attraction\<close> is that number plus the float product of the rating and the
  double 0.8, plus the float product of min(review\_count\_lakhs, 5) and 0.5, each product
  and each sum rounded to the nearest double; the review term is at most 2.5; the score
  is within \<open>2^E / 2^52\<close> of the real sum of the specification; and one more matching
  interest anywhere in the list raises the score by 2 up to \<open>2^E / 2^51\<close>, not always by
  exactly 2.
\<close>

theorem score_attraction_spec:
  assumes "2 * real (length interests) + 16 \<le> 2 ^ E" and "E \<le> 52"
    and "0 \<le> rating a" and "rating a \<le> 5" and "0 \<le> review_count_lakhs a"
  shows "score_attraction a interests trip_type budget_level =
           fadd (fadd (spec_adjustments a interests trip_type budget_level)
                      (fmul (rating a) (round_double 0.8)))
                (fmul (min (review_count_lakhs a) 5) 0.5)
         \<and> fmul (min (review_count_lakhs a) 5) 0.5 \<le> 2.5
         \<and> \<bar>score_attraction a interests trip_type budget_level
               - spec_score a interests trip_type budget_level\<bar> \<le> 2 ^ E / 2 ^ 52
         \<and> (interests = before @ i # after
              \<and> str_contains (str_strip (str_lower i)) (str_lower (tags a))
            \<longrightarrow> \<bar>score_attraction a interests trip_type budget_level
                   - score_attraction a (before @ after) trip_type budget_level - 2\<bar>
                 \<le> 2 ^ E / 2 ^ 51)"
proof -
  have "(2::real) ^ E \<le> 2 ^ 52" using assms(2) by (intro power_increasing) simp_all
  then have "2 * real (length interests) + 4 < 2 ^ 52" using assms(1) by linarith
  then have formula: "score_attraction a interests trip_type budget_level =
           fadd (fadd (spec_adjustments a interests trip_type budget_level)
                      (fmul (rating a) (round_double 0.8)))
                (fmul (min (review_count_lakhs a) 5) 0.5)"
    by (rule score_attraction_adjustments)
  have "fmul (min (review_count_lakhs a) 5) 0.5 \<le> 5 / 2" by (rule review_term_cap)
  then have cap: "fmul (min (review_count_lakhs a) 5) 0.5 \<le> 2.5" by simp
  have err: "\<bar>score_attraction a interests trip_type budget_level
               - spec_score a interests trip_type budget_level\<bar> \<le> 2 ^ E / 2 ^ 52"
    using assms by (rule score_attraction_error)
  have more: "interests = before @ i # after
              \<and> str_contains (str_strip (str_lower i)) (str_lower (tags a))
            \<longrightarrow> \<bar>score_attraction a interests trip_type budget_level
                   - score_attraction a (before @ after) trip_type budget_level - 2\<bar>
                 \<le> 2 ^ E / 2 ^ 51"
  proof (intro impI, elim conjE)
    assume l: "interests = before @ i # after"
      and m: "str_contains (str_strip (str_lower i)) (str_lower (tags a))"
    have "2 * real (length (before @ i # after)) + 16 \<le> 2 ^ E" using assms(1) unfolding l .
    then show "\<bar>score_attraction a interests trip_type budget_level
                 - score_attraction a (before @ after) trip_type budget_level - 2\<bar>
               \<le> 2 ^ E / 2 ^ 51"
      unfolding l using assms(2-5) m by (rule score_attraction_more)
  qed
  show ?thesis using formula cap err more by (intro conjI)
qed

theorem score_attraction_spec_witness:
  "score_attraction (attraction_of_doc baga_beach) [''beach'', '' Nightlife '', ''temples'']
       ''Family trip'' ''LOW budget''
     = fadd (fadd 4.5 (fmul 4.5 (round_double 0.8))) (fmul 1 0.5)
   \<and> fmul (min (review_count_lakhs (attraction_of_doc baga_beach)) 5) 0.5 \<le> 2.5
   \<and> spec_score (attraction_of_doc baga_beach) [''beach'', '' Nightlife '', ''temples'']
        ''Family trip'' ''LOW budget'' = 8.6
   \<and> \<bar>score_attraction (attraction_of_doc baga_beach) [''beach'', '' Nightlife '', ''temples'']
          ''Family trip'' ''LOW budget'' - 8.6\<bar> \<le> 1 / 2 ^ 47
   \<and> \<bar>score_attraction (attraction_of_doc baga_beach) [''beach'', '' Nightlife '', ''temples'']
          ''Family trip'' ''LOW budget''
        - score_attraction (attraction_of_doc baga_beach) [''beach'', ''temples'']
          ''Family trip'' ''LOW budget'' - 2\<bar> \<le> 1 / 2 ^ 46"
proof -
  let ?a = "attraction_of_doc baga_beach"
  let ?l = "[''beach'', '' Nightlife '', ''temples'']"
  have h1: "2 * real (length ?l) + 16 \<le> 2 ^ 5" by simp
  have h2: "(5::nat) \<le> 52" by simp
  have h3: "0 \<le> rating ?a" by (simp add: attraction_of_doc_def baga_beach_def)
  have h4: "rating ?a \<le> 5" by (simp add: attraction_of_doc_def baga_beach_def)
  have h5: "0 \<le> review_count_lakhs ?a" by (simp add: attraction_of_doc_def baga_beach_def)
  have l: "?l = [''beach''] @ '' Nightlife '' # [''temples'']" by simp
  have m: "str_contains (str_strip (str_lower '' Nightlife '')) (str_lower (tags ?a))"
    by code_simp
  have adj: "spec_adjustments ?a ?l ''Family trip'' ''LOW budget'' = 4.5" by code_simp
  have sp: "spec_score ?a ?l ''Family trip'' ''LOW budget'' = 8.6" by code_simp
  have ra: "rating ?a = 4.5" by (simp add: attraction_of_doc_def baga_beach_def)
  have rv: "min (review_count_lakhs ?a) 5 = 1" by (simp add: attraction_of_doc_def baga_beach_def)
  have p1: "(2::real) ^ 5 / 2 ^ 52 = 1 / 2 ^ 47" by simp
  have p2: "(2::real) ^ 5 / 2 ^ 51 = 1 / 2 ^ 46" by simp
  note t = score_attraction_spec [OF h1 h2 h3 h4 h5, where trip_type = "''Family trip''"
      and budget_level = "''LOW budget''" and before = "[''beach'']" and i = "'' Nightlife ''"
      and after = "[''temples'']"]
  have c1: "score_attraction ?a ?l ''Family trip'' ''LOW budget''
             = fadd (fadd 4.5 (fmul 4.5 (round_double 0.8))) (fmul 1 0.5)"
    using t [THEN conjunct1] unfolding adj ra rv .
  have c2: "fmul (min (review_count_lakhs ?a) 5) 0.5 \<le> 2.5"
    using t [THEN conjunct2, THEN conjunct1] .
  have c3: "\<bar>score_attraction ?a ?l ''Family trip'' ''LOW budget'' - 8.6\<bar> \<le> 1 / 2 ^ 47"
    using t [THEN conjunct2, THEN conjunct2, THEN conjunct1] unfolding sp p1 .
  have "\<bar>score_attraction ?a ?l ''Family trip'' ''LOW budget''
          - score_attraction ?a ([''beach''] @ [''temples'']) ''Family trip'' ''LOW budget'' - 2\<bar>
        \<le> 2 ^ 5 / 2 ^ 51"
    using t [THEN conjunct2, THEN conjunct2, THEN conjunct2, THEN mp, OF conjI, OF l m] .
  then have c4: "\<bar>score_attraction ?a ?l ''Family trip'' ''LOW budget''
          - score_attraction ?a [''beach'', ''temples''] ''Family trip'' ''LOW budget'' - 2\<bar>
        \<le> 1 / 2 ^ 46"
    unfolding p2 by simp
  show ?thesis using c1 c2 sp c3 c4 by (intro conjI)
qed

section \<open>Cost\<close>

text \<open>
  C5. For a preference record with day count \<open>d \<ge> 1\<close> and budget string \<open>b\<close>,
  \<open>estimate_cost\<close> returns the budget as given, \<open>estimated_per_day\<close> = 1500, 4000 or
  2500 as \<open>normalize_budget_level b\<close> is "low", "high" or anything else,
  \<open>estimated_total\<close> = \<open>estimated_per_day * d\<close> and the currency "INR". The function takes
  neither the model nor the log of prompts: no model call is involved. The witness is
  the record with 5 days and budget "low": 1500 per day, 7500 in total.
\<close>

theorem estimate_cost_spec:
  assumes "map_of preferences ''days'' = Some (PInt d)"
      and "1 \<le> d"
      and "map_of preferences ''budget_level'' = Some (PStr b)"
      and "per_day = (if normalize_budget_level b = ''low'' then 1500
                      else if normalize_budget_level b = ''high'' then 4000 else 2500)"
  shows "estimate_cost preferences itinerary =
           Inr (PDict [(''budget_level'', PStr b),
                       (''estimated_per_day'', PInt per_day),
                       (''estimated_total'', PInt (per_day * d)),
                       (''currency'', PStr ''INR'')])"
  using assms
  by (simp add: estimate_cost_def dict_get_Some estimate_daily_cost_def Let_def max_def)

theorem estimate_cost_spec_witness:
  "estimate_cost solo_preferences (PDict []) =
     Inr (PDict [(''budget_level'', PStr ''low''),
                 (''estimated_per_day'', PInt 1500),
                 (''estimated_total'', PInt 7500),
                 (''currency'', PStr ''INR'')])"
proof -
  have d: "map_of solo_preferences ''days'' = Some (PInt 5)"
    by (simp add: solo_preferences_def)
  have b: "map_of solo_preferences ''budget_level'' = Some (PStr ''low'')"
    by (simp add: solo_preferences_def)
  have p: "(1500::int) = (if normalize_budget_level ''low'' = ''low'' then 1500
                      else if normalize_budget_level ''low'' = ''high'' then 4000 else 2500)"
    by (simp add: normalize_low)
  show ?thesis
    using estimate_cost_spec [OF d _ b p, of "PDict []"] by simp
qed

section \<open>Retrieval index\<close>

lemma filter_loop_eq: "filter_loop tokens docs acc = acc @ filter (doc_matches tokens) docs"
  by (induction docs arbitrary: acc) auto

lemma search_attractions_eq:
  "search_attractions env destination interests k =
     (let raw = similarity_search env (search_query (str_strip destination) interests) k;
          toks = dest_tokens (str_strip destination);
          kept = filter (doc_matches toks) raw
      in map attraction_of_doc (if toks \<noteq> [] \<and> kept \<noteq> [] then kept else raw))"
  by (simp add: search_attractions_def Let_def filter_loop_eq)

lemma dest_tokens_shape:
  assumes "t \<in> set (dest_tokens d)"
  shows "t \<noteq> [] \<and> str_strip t = t \<and> str_lower t = t"
proof -
  from assms obtain x where x: "t = str_lower (str_strip x)" and ne: "str_strip x \<noteq> []"
    by (auto simp: dest_tokens_def)
  have "t \<noteq> []" using x ne by (simp add: str_lower_def)
  moreover have "str_strip t = t"
    using x by (simp add: str_strip_lower str_strip_idem)
  moreover have "str_lower t = t" using x by (simp add: str_lower_idem)
  ultimately show ?thesis by simp
qed

lemma doc_matches_iff:
  "doc_matches toks doc \<longleftrightarrow>
     (\<exists>t \<in> set toks. str_contains t (str_lower (city (metadata doc)))
                   \<or> str_contains t (str_lower (state (metadata doc)))
                   \<or> str_contains t (str_lower (region (metadata doc))))"
  by (simp add: doc_matches_def Let_def list_ex_iff)

text \<open>
  C1. \<open>search_attractions env destination interests k\<close> takes the records \<open>raw\<close> that the
  similarity search returns for \<open>k\<close>, and the location tokens \<open>toks\<close> of the destination
  (split on commas, trimmed, lowercased, never empty). \<open>kept\<close> is the sublist of \<open>raw\<close>, in
  retrieval order, of the records whose lowercased city, state or region contains some
  token. If there is a token and \<open>kept\<close> is not empty, \<open>kept\<close> is returned; if \<open>kept\<close> is
  empty, or there is no token, \<open>raw\<close> is returned. So the result is not empty when \<open>raw\<close> is
  not, and a retrieved record whose city contains a token is in the result.
\<close>

theorem search_attractions_spec:
  assumes "raw = similarity_search env (search_query (str_strip destination) interests) k"
      and "toks = dest_tokens (str_strip destination)"
      and "kept = filter (\<lambda>doc. \<exists>t \<in> set toks.
                      str_contains t (str_lower (city (metadata doc)))
                    \<or> str_contains t (str_lower (state (metadata doc)))
                    \<or> str_contains t (str_lower (region (metadata doc)))) raw"
  shows "(\<forall>t \<in> set toks. t \<noteq> [] \<and> str_strip t = t \<and> str_lower t = t)
       \<and> search_attractions env destination interests k =
           map attraction_of_doc (if toks \<noteq> [] \<and> kept \<noteq> [] then kept else raw)
       \<and> (toks = [] \<longrightarrow> search_attractions env destination interests k = map attraction_of_doc raw)
       \<and> (kept = [] \<longrightarrow> search_attractions env destination interests k = map attraction_of_doc raw)
       \<and> (raw \<noteq> [] \<longrightarrow> search_attractions env destination interests k \<noteq> [])
       \<and> (\<forall>doc \<in> set raw. \<forall>t \<in> set toks. str_contains t (str_lower (city (metadata doc)))
             \<longrightarrow> attraction_of_doc doc \<in> set (search_attractions env destination interests k))"
proof -
  have "doc_matches toks = (\<lambda>doc. \<exists>t \<in> set toks.
                      str_contains t (str_lower (city (metadata doc)))
                    \<or> str_contains t (str_lower (state (metadata doc)))
                    \<or> str_contains t (str_lower (region (metadata doc))))"
    by (rule ext) (rule doc_matches_iff)
  then have kept: "kept = filter (doc_matches toks) raw"
    using assms(3) by simp
  have eq: "search_attractions env destination interests k =
           map attraction_of_doc (if toks \<noteq> [] \<and> kept \<noteq> [] then kept else raw)"
    using assms(1,2) kept by (simp add: search_attractions_eq Let_def)
  have shape: "\<forall>t \<in> set toks. t \<noteq> [] \<and> str_strip t = t \<and> str_lower t = t"
    using assms(2) dest_tokens_shape by blast
  have nonempty: "raw \<noteq> [] \<longrightarrow> search_attractions env destination interests k \<noteq> []"
    using eq by auto
  have member: "\<forall>doc \<in> set raw. \<forall>t \<in> set toks. str_contains t (str_lower (city (metadata doc)))
             \<longrightarrow> attraction_of_doc doc \<in> set (search_attractions env destination interests k)"
  proof (intro ballI impI)
    fix doc t
    assume d: "doc \<in> set raw" and t: "t \<in> set toks"
       and c: "str_contains t (str_lower (city (metadata doc)))"
    then have "doc \<in> set kept" using assms(3) by auto
    moreover from this have "kept \<noteq> []" by auto
    moreover have "toks \<noteq> []" using t by auto
    ultimately show "attraction_of_doc doc \<in> set (search_attractions env destination interests k)"
      using eq by simp
  qed
  show ?thesis using eq shape nonempty member by simp
qed

lemmas sample_eval = sample_env_def sample_docs_def taj_mahal_def baga_beach_def fort_aguada_def
  calangute_beach_def py_slice_def slice_bound_def

theorem search_attractions_spec_witness:
  "search_attractions (sample_env [] []) '' GOA , '' [''beach''] 15
     = map attraction_of_doc [baga_beach, fort_aguada, calangute_beach]
   \<and> search_attractions (sample_env [] []) ''Atlantis'' [''beach''] 15
     = map attraction_of_doc [taj_mahal, baga_beach, fort_aguada, calangute_beach]
   \<and> search_attractions (sample_env [] []) '' , '' [''beach''] 2
     = map attraction_of_doc [taj_mahal, baga_beach]"
proof -
  let ?E = "sample_env [] []"
  have raw: "\<And>q. sample_docs = similarity_search ?E q 15"
    by (simp add: sample_eval)
  have raw2: "\<And>q. [taj_mahal, baga_beach] = similarity_search ?E q 2"
    by (simp add: sample_eval)
  have t1: "[''goa''] = dest_tokens (str_strip '' GOA , '')"
    by (simp add: dest_tokens_def str_eval)
  have t2: "[''atlantis''] = dest_tokens (str_strip ''Atlantis'')"
    by (simp add: dest_tokens_def str_eval)
  have t3: "[] = dest_tokens (str_strip '' , '')"
    by (simp add: dest_tokens_def str_eval)
  have k1: "[baga_beach, fort_aguada, calangute_beach] =
              filter (\<lambda>doc. \<exists>t \<in> set [''goa''].
                      str_contains t (str_lower (city (metadata doc)))
                    \<or> str_contains t (str_lower (state (metadata doc)))
                    \<or> str_contains t (str_lower (region (metadata doc)))) sample_docs"
    by (simp add: sample_docs_def taj_mahal_def baga_beach_def fort_aguada_def calangute_beach_def str_eval)
  have k2: "[] = filter (\<lambda>doc. \<exists>t \<in> set [''atlantis''].
                      str_contains t (str_lower (city (metadata doc)))
                    \<or> str_contains t (str_lower (state (metadata doc)))
                    \<or> str_contains t (str_lower (region (metadata doc)))) sample_docs"
    by (simp add: sample_docs_def taj_mahal_def baga_beach_def fort_aguada_def calangute_beach_def str_eval)
  have k3: "[] = filter (\<lambda>doc. \<exists>t \<in> set [].
                      str_contains t (str_lower (city (metadata doc)))
                    \<or> str_contains t (str_lower (state (metadata doc)))
                    \<or> str_contains t (str_lower (region (metadata doc)))) [taj_mahal, baga_beach]"
    by simp
  have a: "search_attractions ?E '' GOA , '' [''beach''] 15
     = map attraction_of_doc [baga_beach, fort_aguada, calangute_beach]"
    using search_attractions_spec [OF raw t1 k1] by simp
  have b: "search_attractions ?E ''Atlantis'' [''beach''] 15 = map attraction_of_doc sample_docs"
    using search_attractions_spec [OF raw t2 k2] by simp
  have c: "search_attractions ?E '' , '' [''beach''] 2 = map attraction_of_doc [taj_mahal, baga_beach]"
    using search_attractions_spec [OF raw2 t3 k3] by simp
  show ?thesis using a b c by (simp add: sample_docs_def)
qed

section \<open>Preference extraction\<close>

lemma extract_preferences_eq:
  "extract_preferences env user_input sent =
     (case json_loads env (llm_invoke env sent
             (PREFERENCE_EXTRACTION_SYSTEM_PROMPT @ ''\<newline>\<newline>User Input:\<newline>'' @ user_input)) of
        Some data \<Rightarrow> data
      | None \<Rightarrow> default_preferences,
      sent @ [PREFERENCE_EXTRACTION_SYSTEM_PROMPT @ ''\<newline>\<newline>User Input:\<newline>'' @ user_input])"
  by (simp add: extract_preferences_def invoke_def Let_def split: option.splits)

text \<open>
  C3, as stated, asks for the default record whenever the answer is not a JSON object of
  the expected shape. The code substitutes the default only when \<^verbatim>\<open>json.loads\<close> raises:
  the answer \<^verbatim>\<open>[]\<close> parses, is not an object, and is returned as it is.
\<close>

theorem extract_preferences_counterexample:
  "json_loads (sample_env [''[]''] [(''[]'', PList [])])
     (llm_invoke (sample_env [''[]''] [(''[]'', PList [])]) []
        (PREFERENCE_EXTRACTION_SYSTEM_PROMPT @ ''\<newline>\<newline>User Input:\<newline>'' @ ''A week in Kerala'')) = Some (PList [])
   \<and> \<not> expected_shape (PList [])
   \<and> fst (extract_preferences (sample_env [''[]''] [(''[]'', PList [])]) ''A week in Kerala'' []) = PList []
   \<and> fst (extract_preferences (sample_env [''[]''] [(''[]'', PList [])]) ''A week in Kerala'' []) \<noteq> default_preferences"
  by (simp add: extract_preferences_eq sample_env_def expected_shape_def default_preferences_def)

text \<open>
  C3 (amended). \<open>extract_preferences\<close> makes exactly one model call (the log of prompts
  grows by the one extraction prompt). When the answer parses as JSON, the parsed value is
  returned, whatever its shape; when parsing fails, the fixed default record
  (Goa, 3 days, medium, friends, beach and nightlife) is returned. A value is returned
  in both cases: no parse error reaches the caller.
\<close>

theorem extract_preferences_spec:
  assumes "prompt = PREFERENCE_EXTRACTION_SYSTEM_PROMPT @ ''\<newline>\<newline>User Input:\<newline>'' @ user_input"
      and "content = llm_invoke env sent prompt"
  shows "snd (extract_preferences env user_input sent) = sent @ [prompt]
       \<and> length (snd (extract_preferences env user_input sent)) = length sent + 1
       \<and> (\<forall>data. json_loads env content = Some data
             \<longrightarrow> fst (extract_preferences env user_input sent) = data)
       \<and> (json_loads env content = None
             \<longrightarrow> fst (extract_preferences env user_input sent) =
                   PDict [(''destination'', PStr ''Goa''),
                          (''days'', PInt 3),
                          (''budget_level'', PStr ''medium''),
                          (''trip_type'', PStr ''friends''),
                          (''interests'', PList [PStr ''beach'', PStr ''nightlife''])])"
  using assms by (simp add: extract_preferences_eq default_preferences_def)

theorem extract_preferences_spec_witness:
  "fst (extract_preferences (sample_env [''{}''] [(''{}'', PDict [])])
          ''Two days in Agra'' []) = PDict []
   \<and> fst (extract_preferences (sample_env [''Sure! Here is your plan.''] []) ''Two days in Agra'' [])
       = PDict [(''destination'', PStr ''Goa''),
                (''days'', PInt 3),
                (''budget_level'', PStr ''medium''),
                (''trip_type'', PStr ''friends''),
                (''interests'', PList [PStr ''beach'', PStr ''nightlife''])]
   \<and> length (snd (extract_preferences (sample_env [''Sure! Here is your plan.''] []) ''Two days in Agra'' [])) = 1"
proof -
  let ?E1 = "sample_env [''{}''] [(''{}'', PDict [])]"
  let ?E2 = "sample_env [''Sure! Here is your plan.''] []"
  let ?p = "PREFERENCE_EXTRACTION_SYSTEM_PROMPT @ ''\<newline>\<newline>User Input:\<newline>'' @ ''Two days in Agra''"
  have l1: "json_loads ?E1 (llm_invoke ?E1 [] ?p) = Some (PDict [])"
    by (simp add: sample_env_def)
  have l2: "json_loads ?E2 (llm_invoke ?E2 [] ?p) = None"
    by (simp add: sample_env_def)
  have a: "fst (extract_preferences ?E1 ''Two days in Agra'' []) = PDict []"
    using l1 extract_preferences_spec [OF refl refl, of ?E1 "''Two days in Agra''" "[]"] by blast
  have b: "fst (extract_preferences ?E2 ''Two days in Agra'' [])
       = PDict [(''destination'', PStr ''Goa''),
                (''days'', PInt 3),
                (''budget_level'', PStr ''medium''),
                (''trip_type'', PStr ''friends''),
                (''interests'', PList [PStr ''beach'', PStr ''nightlife''])]"
    using l2 extract_preferences_spec [OF refl refl, of ?E2 "''Two days in Agra''" "[]"] by blast
  have c: "length (snd (extract_preferences ?E2 ''Two days in Agra'' [])) = 1"
    using extract_preferences_spec [OF refl refl, of ?E2 "''Two days in Agra''" "[]"] by simp
  show ?thesis using a b c by simp
qed

section \<open>Ranking\<close>

lemma score_loop_eq:
  assumes "or_empty_str trip_type = Inr tt" and "or_empty_str budget_level = Inr bl"
  shows "score_loop raw ints trip_type budget_level acc =
           Inr (acc @ map (\<lambda>a. add_score a (score_attraction a ints tt bl)) raw)"
  using assms by (induction raw arbitrary: acc) auto

lemma str_items_strs: "str_items (map PStr ints) = Inr ints"
  by (induction ints) auto

lemma mset_py_sort_reverse: "mset (py_sort_reverse f xs) = mset xs"
  by (simp add: py_sort_reverse_def)

lemma sorted_py_sort_reverse: "sorted_wrt (\<lambda>x y. f x \<ge> f y) (py_sort_reverse f xs)"
proof -
  have "sorted (map f (sort_key f (rev xs)))" by simp
  then have "sorted_wrt (\<lambda>x y. f x \<le> f y) (sort_key f (rev xs))"
    by (simp add: sorted_map)
  then show ?thesis
    by (simp add: py_sort_reverse_def sorted_wrt_rev)
qed

lemma stable_py_sort_reverse:
  "filter (\<lambda>x. f x = s) (py_sort_reverse f xs) = filter (\<lambda>x. f x = s) xs"
proof -
  have "filter (\<lambda>x. f x = s) (py_sort_reverse f xs) = rev (filter (\<lambda>x. f x = s) (sort_key f (rev xs)))"
    by (simp add: py_sort_reverse_def rev_filter)
  also have "\<dots> = rev (filter (\<lambda>x. f x = s) (rev xs))"
    by (simp only: sort_key_stable)
  also have "\<dots> = filter (\<lambda>x. f x = s) xs"
    by (simp add: rev_filter)
  finally show ?thesis .
qed

lemma score_add_score: "score (add_score a s) = s"
  by (simp add: add_score_def)

lemma retrieve_attractions_eq:
  assumes "map_of preferences ''destination'' = Some (PStr destination)"
      and "map_of preferences ''interests'' = Some (PList (map PStr interests))"
      and "map_of preferences ''trip_type'' = Some (PStr trip_type)"
      and "map_of preferences ''budget_level'' = Some (PStr budget_level)"
  shows "retrieve_attractions env preferences k =
           Inr (py_sort_reverse score
                  (map (\<lambda>a. add_score a (score_attraction a interests trip_type budget_level))
                       (search_attractions env destination interests k)))"
  using assms
  by (simp add: retrieve_attractions_def dict_get_Some str_items_strs
      score_loop_eq [where tt = trip_type and bl = budget_level])

lemma goa_search:
  "search_attractions (sample_env [] []) ''Goa'' [''beach'', ''nightlife''] 15
     = map attraction_of_doc [baga_beach, fort_aguada, calangute_beach]"
  by (simp add: search_attractions_eq dest_tokens_def str_eval doc_matches_def sample_eval)

text \<open>
  C8. For a preference record (destination, trip type and budget are strings, the
  interests a list of strings), \<open>retrieve_attractions\<close> returns a list \<open>out\<close>: the
  retrieved attractions, each with its score (\<open>scored\<close>), rearranged (same multiset) in
  descending order of score, and stably: for every score \<open>s\<close>, the attractions of score
  \<open>s\<close> are in \<open>out\<close> in the order they have in the retrieval result.
\<close>

theorem retrieve_attractions_spec:
  assumes "map_of preferences ''destination'' = Some (PStr destination)"
      and "map_of preferences ''interests'' = Some (PList (map PStr interests))"
      and "map_of preferences ''trip_type'' = Some (PStr trip_type)"
      and "map_of preferences ''budget_level'' = Some (PStr budget_level)"
      and "scored = map (\<lambda>a. add_score a (score_attraction a interests trip_type budget_level))
                        (search_attractions env destination interests k)"
  shows "\<exists>out. retrieve_attractions env preferences k = Inr out
           \<and> map score scored = map (\<lambda>a. score_attraction a interests trip_type budget_level)
                                    (search_attractions env destination interests k)
           \<and> mset out = mset scored
           \<and> sorted_wrt (\<lambda>x y. score x \<ge> score y) out
           \<and> (\<forall>s. filter (\<lambda>x. score x = s) out = filter (\<lambda>x. score x = s) scored)"
proof -
  have r: "retrieve_attractions env preferences k = Inr (py_sort_reverse score scored)"
    using assms
    by (simp add: retrieve_attractions_def dict_get_Some str_items_strs
        score_loop_eq [where tt = trip_type and bl = budget_level])
  have m: "map score scored = map (\<lambda>a. score_attraction a interests trip_type budget_level)
                                    (search_attractions env destination interests k)"
    using assms(5) by (simp add: score_add_score comp_def)
  show ?thesis
    using r m mset_py_sort_reverse [of score scored] sorted_py_sort_reverse [of score scored]
      stable_py_sort_reverse [of score _ scored]
    by simp
qed

theorem retrieve_attractions_spec_witness:
  "\<exists>out. retrieve_attractions (sample_env [] []) goa_preferences 15 = Inr out
      \<and> map name out = [''Baga Beach'', ''Calangute Beach'', ''Fort Aguada'']
      \<and> map score out = [round_double 8.1, round_double 8.1, 6.5]
      \<and> sorted_wrt (\<lambda>x y. score x \<ge> score y) out
      \<and> filter (\<lambda>x. score x = round_double 8.1) out
          = filter (\<lambda>x. score x = round_double 8.1)
              (map (\<lambda>a. add_score a (score_attraction a [''beach'', ''nightlife''] ''friends'' ''medium''))
                   (map attraction_of_doc [baga_beach, fort_aguada, calangute_beach]))"
proof -
  let ?E = "sample_env [] []"
  let ?scored = "map (\<lambda>a. add_score a (score_attraction a [''beach'', ''nightlife''] ''friends'' ''medium''))
                   (search_attractions ?E ''Goa'' [''beach'', ''nightlife''] 15)"
  have d: "map_of goa_preferences ''destination'' = Some (PStr ''Goa'')"
    by (simp add: goa_preferences_def)
  have i: "map_of goa_preferences ''interests'' = Some (PList (map PStr [''beach'', ''nightlife'']))"
    by (simp add: goa_preferences_def)
  have t: "map_of goa_preferences ''trip_type'' = Some (PStr ''friends'')"
    by (simp add: goa_preferences_def)
  have b: "map_of goa_preferences ''budget_level'' = Some (PStr ''medium'')"
    by (simp add: goa_preferences_def)
  from retrieve_attractions_spec [OF d i t b refl, of ?E 15]
  obtain out where r: "retrieve_attractions ?E goa_preferences 15 = Inr out"
    and m: "mset out = mset ?scored"
    and s: "sorted_wrt (\<lambda>x y. score x \<ge> score y) out"
    and st: "\<forall>s. filter (\<lambda>x. score x = s) out = filter (\<lambda>x. score x = s) ?scored"
    by blast
  have v: "round_double 8.1 = 4559894622712627 / 562949953421312"
    by code_simp
  have sb: "score_attraction (attraction_of_doc baga_beach) [''beach'', ''nightlife''] ''friends'' ''medium''
              = 4559894622712627 / 562949953421312"
    by code_simp
  have sc: "score_attraction (attraction_of_doc calangute_beach) [''beach'', ''nightlife''] ''friends'' ''medium''
              = 4559894622712627 / 562949953421312"
    by code_simp
  have sa: "score_attraction (attraction_of_doc fort_aguada) [''beach'', ''nightlife''] ''friends'' ''medium''
              = 13 / 2"
    by code_simp
  have ev: "retrieve_attractions ?E goa_preferences 15 =
      Inr [add_score (attraction_of_doc baga_beach) (4559894622712627 / 562949953421312),
           add_score (attraction_of_doc calangute_beach) (4559894622712627 / 562949953421312),
           add_score (attraction_of_doc fort_aguada) (13 / 2)]"
    using retrieve_attractions_eq [OF d i t b, of ?E 15]
    by (simp add: goa_search sb sc sa py_sort_reverse_def add_score_def)
  have out: "out = [add_score (attraction_of_doc baga_beach) (round_double 8.1),
           add_score (attraction_of_doc calangute_beach) (round_double 8.1),
           add_score (attraction_of_doc fort_aguada) 6.5]"
    using r ev unfolding v by simp
  have names: "map name out = [''Baga Beach'', ''Calangute Beach'', ''Fort Aguada'']"
    by (simp add: out add_score_def attraction_of_doc_def baga_beach_def fort_aguada_def calangute_beach_def)
  have scores: "map score out = [round_double 8.1, round_double 8.1, 6.5]"
    by (simp add: out add_score_def)
  have "filter (\<lambda>x. score x = round_double 8.1) out = filter (\<lambda>x. score x = round_double 8.1) ?scored"
    using st by blast
  then show ?thesis using r names scores s by (simp add: goa_search)
qed

section \<open>Planner\<close>

lemma fallback_loop_eq:
  assumes "0 \<le> idx" and "0 \<le> per_day"
  shows "fallback_loop env preferences cands per_day ds idx acc =
           acc @ map (\<lambda>j. fallback_day_obj env preferences (ds ! j)
                            (take (nat per_day) (drop (nat idx + j * nat per_day) cands)))
                     [0..<length ds]"
  using assms
proof (induction ds arbitrary: idx acc)
  case Nil
  then show ?case by simp
next
  case (Cons d ds)
  have step: "0 \<le> idx + per_day" using Cons.prems by simp
  have sl: "py_slice cands idx (idx + per_day) = take (nat per_day) (drop (nat idx) cands)"
    using Cons.prems py_slice_nonneg [of idx "idx + per_day" cands] by simp
  have shift: "nat (idx + per_day) = nat idx + nat per_day"
    using Cons.prems by (simp add: nat_add_distrib)
  have "[0..<length (d # ds)] = 0 # map Suc [0..<length ds]"
    by (simp add: upt_conv_Cons map_Suc_upt del: upt_Suc)
  then show ?case
    using Cons.IH [OF step Cons.prems(2)] sl shift
    by (simp add: Let_def comp_def add.assoc del: upt_Suc)
qed

lemma plan_itinerary_fallback:
  assumes days: "map_of preferences ''days'' = Some (PInt d)" and pos: "1 \<le> d"
      and c: "c = take (nat (max (d * style_per_day style) (d * 2))) attractions"
      and prompt: "prompt = ITINERARY_PLANNER_SYSTEM_PROMPT @ ''\<newline>\<newline>Data:\<newline>''
                     @ json_dumps env (planner_input preferences d style c)"
      and fails: "json_loads env (llm_invoke env sent prompt) = None"
      and pd: "per_day = max 1 (length c div nat d)"
  shows "plan_itinerary env preferences attractions style sent =
           (Inr (PDict [(''days'', PList (map (\<lambda>i. fallback_day_obj env preferences i
                                                   (take per_day (drop (nat (i - 1) * per_day) c)))
                                              [1..d]))]),
            sent @ [prompt])"
proof -
  have top: "py_slice attractions 0 (max (d * style_per_day style) (d * 2)) = c"
    using pos c by (simp add: py_slice_prefix)
  have "int (length c div nat d) = int (length c) div d"
    using pos by (simp add: zdiv_int)
  then have pdi: "max 1 (int (length c) div d) = int per_day"
    using pd by (simp add: max_def)
  have loop: "fallback_loop env preferences c (int per_day) [1..d] 0 [] =
         map (\<lambda>i. fallback_day_obj env preferences i (take per_day (drop (nat (i - 1) * per_day) c))) [1..d]"
    using fallback_loop_eq [of 0 "int per_day" env preferences c "[1..d]" "[]"]
    by (simp add: upto_as_map comp_def)
  show ?thesis
    using days pos prompt fails
    by (simp add: plan_itinerary_def dict_get_Some Let_def top pdi loop invoke_def max_absorb1)
qed

lemma itinerary_days_fallback: "itinerary_days (PDict [(''days'', PList ds)]) = ds"
  by (simp add: itinerary_days_def dict_get_def)

lemma day_attractions_fallback:
  "day_attractions (fallback_day_obj env preferences i atts) = map fallback_entry atts"
  by (simp add: day_attractions_def fallback_day_obj_def dict_get_def)

lemma fallback_days_as_map:
  "map (\<lambda>i. fallback_day_obj env preferences i (take pd (drop (nat (i - 1) * pd) c))) [1..d]
     = map (\<lambda>j. fallback_day_obj env preferences (1 + int j) (take pd (drop (j * pd) c))) [0..<nat d]"
  by (simp add: upto_as_map comp_def)

lemma fallback_attractions_concat:
  "concat (map day_attractions
      (map (\<lambda>i. fallback_day_obj env preferences i (take pd (drop (nat (i - 1) * pd) c))) [1..d]))
     = map fallback_entry (take (nat d * pd) c)"
proof -
  have "concat (map day_attractions
      (map (\<lambda>i. fallback_day_obj env preferences i (take pd (drop (nat (i - 1) * pd) c))) [1..d]))
     = concat (map (\<lambda>j. map fallback_entry (take pd (drop (j * pd) c))) [0..<nat d])"
    by (simp add: fallback_days_as_map comp_def day_attractions_fallback)
  also have "\<dots> = map fallback_entry (concat (map (\<lambda>j. take pd (drop (j * pd) c)) [0..<nat d]))"
    by (simp add: map_concat comp_def)
  finally show ?thesis by (simp add: concat_chunks)
qed

lemma style_per_day_cases:
  "style_per_day style =
     (case style of
        None \<Rightarrow> 3
      | Some s \<Rightarrow> if str_contains ''relaxed'' (str_lower s) then 2
                  else if str_contains ''packed'' (str_lower s) then 4 else 3)"
proof (cases style)
  case None
  then show ?thesis by (simp add: style_per_day_def str_eval)
next
  case (Some s)
  show ?thesis
  proof (cases "s = []")
    case True
    then show ?thesis using Some by (simp add: style_per_day_def str_eval)
  next
    case False
    then show ?thesis using Some by (simp add: style_per_day_def Let_def)
  qed
qed

lemma plan_itinerary_sent:
  assumes days: "map_of preferences ''days'' = Some (PInt d)" and pos: "1 \<le> d"
      and c: "c = take (nat (max (d * style_per_day style) (d * 2))) attractions"
      and prompt: "prompt = ITINERARY_PLANNER_SYSTEM_PROMPT @ ''\<newline>\<newline>Data:\<newline>''
                     @ json_dumps env (planner_input preferences d style c)"
  shows "snd (plan_itinerary env preferences attractions style sent) = sent @ [prompt]"
    and "json_loads env (llm_invoke env sent prompt) = Some it
         \<Longrightarrow> fst (plan_itinerary env preferences attractions style sent) = Inr it"
proof -
  have top: "py_slice attractions 0 (max (d * style_per_day style) (d * 2)) = c"
    using pos c by (simp add: py_slice_prefix)
  show "snd (plan_itinerary env preferences attractions style sent) = sent @ [prompt]"
    using days pos prompt
    by (simp add: plan_itinerary_def dict_get_Some Let_def top invoke_def max_absorb1 split: option.splits)
  show "json_loads env (llm_invoke env sent prompt) = Some it
         \<Longrightarrow> fst (plan_itinerary env preferences attractions style sent) = Inr it"
    using days pos prompt
    by (simp add: plan_itinerary_def dict_get_Some Let_def top invoke_def max_absorb1)
qed

lemma planner_input_candidates:
  "\<exists>kvs. planner_input preferences d style c = PDict kvs
      \<and> map_of kvs ''candidate_attractions'' = Some (PList (map compact_entry c))"
  by (simp add: planner_input_def)

lemma nine_attractions:
  "map numbered_attraction [1..9] =
     [numbered_attraction 1, numbered_attraction 2, numbered_attraction 3,
      numbered_attraction 4, numbered_attraction 5, numbered_attraction 6,
      numbered_attraction 7, numbered_attraction 8, numbered_attraction 9]"
  by (simp add: upto_rec1)

lemma style_standard: "style_per_day (Some ''standard'') = 3"
  by (simp add: style_per_day_def str_eval)

lemma list3_nth: "length xs = 3 \<Longrightarrow> xs = [xs ! 0, xs ! 1, xs ! 2]"
  by (cases xs; cases "tl xs"; cases "tl (tl xs)") auto

text \<open>
  C9, as stated, asks that a style containing "packed" give 4 attractions per day. The
  test for "relaxed" comes first in the code: the style "relaxed, not packed" gives 2,
  and with 3 days the planner keeps 6 of 9 candidates, not 9.
\<close>

theorem plan_itinerary_counterexample:
  "str_contains ''packed'' (str_lower ''relaxed, not packed'')
   \<and> style_per_day (Some ''relaxed, not packed'') = 2
   \<and> style_per_day (Some ''relaxed, not packed'') \<noteq> 4
   \<and> concat (map day_attractions (itinerary_days
         (case fst (plan_itinerary (sample_env [] []) goa_preferences (map numbered_attraction [1..9])
                      (Some ''relaxed, not packed'') []) of
            Inr it \<Rightarrow> it
          | Inl e \<Rightarrow> PNone)))
       = map fallback_entry
           [numbered_attraction 1, numbered_attraction 2, numbered_attraction 3,
            numbered_attraction 4, numbered_attraction 5, numbered_attraction 6]"
proof -
  let ?E = "sample_env [] []"
  let ?atts = "map numbered_attraction [1..9]"
  let ?style = "Some ''relaxed, not packed''"
  have s: "style_per_day ?style = 2" by (simp add: style_per_day_def str_eval)
  have k: "str_contains ''packed'' (str_lower ''relaxed, not packed'')" by (simp add: str_eval)
  have d: "map_of goa_preferences ''days'' = Some (PInt 3)" by (simp add: goa_preferences_def)
  have c: "take 6 ?atts = take (nat (max (3 * style_per_day ?style) (3 * 2))) ?atts"
    by (simp add: s)
  have f: "\<And>p. json_loads ?E (llm_invoke ?E [] p) = None"
    by (simp add: sample_env_def)
  have p: "(2::nat) = max 1 (length (take 6 ?atts) div nat 3)" by simp
  have "fst (plan_itinerary ?E goa_preferences ?atts ?style []) =
          Inr (PDict [(''days'', PList (map (\<lambda>i. fallback_day_obj ?E goa_preferences i
                                                   (take 2 (drop (nat (i - 1) * 2) (take 6 ?atts))))
                                              [1..3]))])"
    using plan_itinerary_fallback [OF d _ c refl f p] by simp
  then have "concat (map day_attractions (itinerary_days
         (case fst (plan_itinerary ?E goa_preferences ?atts ?style []) of
            Inr it \<Rightarrow> it | Inl e \<Rightarrow> PNone)))
       = map fallback_entry (take (nat 3 * 2) (take 6 ?atts))"
    by (simp only: sum.case itinerary_days_fallback fallback_attractions_concat)
  then show ?thesis using s k by (simp add: nine_attractions)
qed

text \<open>
  C9 (amended). For a day count \<open>d \<ge> 1\<close>: the attractions-per-day target is 2 when the
  lowercased style contains "relaxed", 4 when it contains "packed" and not "relaxed",
  and 3 otherwise (also for the empty and the missing style). The ranked list is cut to
  its first \<open>max (d * per_day) (d * 2)\<close> entries \<open>c\<close> before the one model call: the prompt
  is built from \<open>c\<close> alone, and when the answer does not parse, the attractions of the
  fallback itinerary are a prefix of \<open>c\<close>.
\<close>

theorem plan_itinerary_truncation_spec:
  assumes "map_of preferences ''days'' = Some (PInt d)"
      and "1 \<le> d"
      and "per_day = style_per_day style"
      and "bound = max (d * per_day) (d * 2)"
      and "c = take (nat bound) attractions"
      and "prompt = ITINERARY_PLANNER_SYSTEM_PROMPT @ ''\<newline>\<newline>Data:\<newline>''
                     @ json_dumps env (planner_input preferences d style c)"
  shows "per_day = (case style of
                      None \<Rightarrow> 3
                    | Some s \<Rightarrow> if str_contains ''relaxed'' (str_lower s) then 2
                                else if str_contains ''packed'' (str_lower s) then 4
                                else 3)
       \<and> (style = None \<or> style = Some [] \<longrightarrow> per_day = 3)
       \<and> int (length c) \<le> bound
       \<and> snd (plan_itinerary env preferences attractions style sent) = sent @ [prompt]
       \<and> (\<exists>kvs. planner_input preferences d style c = PDict kvs
              \<and> map_of kvs ''candidate_attractions'' = Some (PList (map compact_entry c)))
       \<and> (\<forall>it. json_loads env (llm_invoke env sent prompt) = Some it
              \<longrightarrow> fst (plan_itinerary env preferences attractions style sent) = Inr it)
       \<and> (json_loads env (llm_invoke env sent prompt) = None
              \<longrightarrow> (\<exists>it m. fst (plan_itinerary env preferences attractions style sent) = Inr it
                      \<and> concat (map day_attractions (itinerary_days it))
                          = map fallback_entry (take m c)))"
proof -
  have c': "c = take (nat (max (d * style_per_day style) (d * 2))) attractions"
    using assms(3,4,5) by simp
  have pd: "per_day = (case style of
                      None \<Rightarrow> 3
                    | Some s \<Rightarrow> if str_contains ''relaxed'' (str_lower s) then 2
                                else if str_contains ''packed'' (str_lower s) then 4
                                else 3)"
    using assms(3) by (simp add: style_per_day_cases)
  have dflt: "style = None \<or> style = Some [] \<longrightarrow> per_day = 3"
    using pd by (auto simp: str_lower_def)
  have "0 \<le> bound" using assms(2,4) by simp
  then have len: "int (length c) \<le> bound" using assms(5) by simp
  have sent: "snd (plan_itinerary env preferences attractions style sent) = sent @ [prompt]"
    using assms(1,2) c' assms(6) by (rule plan_itinerary_sent(1))
  have parsed: "\<forall>it. json_loads env (llm_invoke env sent prompt) = Some it
              \<longrightarrow> fst (plan_itinerary env preferences attractions style sent) = Inr it"
    using plan_itinerary_sent(2) [OF assms(1,2) c' assms(6)] by blast
  have fb: "json_loads env (llm_invoke env sent prompt) = None
              \<longrightarrow> (\<exists>it m. fst (plan_itinerary env preferences attractions style sent) = Inr it
                      \<and> concat (map day_attractions (itinerary_days it))
                          = map fallback_entry (take m c))"
  proof
    assume fails: "json_loads env (llm_invoke env sent prompt) = None"
    let ?pd = "max 1 (length c div nat d)"
    let ?it = "PDict [(''days'', PList (map (\<lambda>i. fallback_day_obj env preferences i
                          (take ?pd (drop (nat (i - 1) * ?pd) c))) [1..d]))]"
    have "fst (plan_itinerary env preferences attractions style sent) = Inr ?it"
      using plan_itinerary_fallback [OF assms(1,2) c' assms(6) fails refl] by simp
    moreover have "concat (map day_attractions (itinerary_days ?it))
                     = map fallback_entry (take (nat d * ?pd) c)"
      by (simp only: itinerary_days_fallback fallback_attractions_concat)
    ultimately show "\<exists>it m. fst (plan_itinerary env preferences attractions style sent) = Inr it
                      \<and> concat (map day_attractions (itinerary_days it))
                          = map fallback_entry (take m c)"
      by blast
  qed
  show ?thesis
    using pd dflt len sent planner_input_candidates [of preferences d style c] parsed fb
    by blast
qed

theorem plan_itinerary_truncation_spec_witness:
  "style_per_day (Some ''Relaxed pace'') = 2
   \<and> style_per_day (Some ''PACKED'') = 4
   \<and> style_per_day (Some ''standard'') = 3
   \<and> snd (plan_itinerary (sample_env [] []) goa_preferences (map numbered_attraction [1..9])
            (Some ''Relaxed pace'') [])
       = [ITINERARY_PLANNER_SYSTEM_PROMPT @ ''\<newline>\<newline>Data:\<newline>''
            @ json_dumps (sample_env [] [])
                (planner_input goa_preferences 3 (Some ''Relaxed pace'')
                   [numbered_attraction 1, numbered_attraction 2, numbered_attraction 3,
                    numbered_attraction 4, numbered_attraction 5, numbered_attraction 6])]
   \<and> (\<exists>it m. fst (plan_itinerary (sample_env [] []) goa_preferences (map numbered_attraction [1..9])
                      (Some ''Relaxed pace'') []) = Inr it
           \<and> concat (map day_attractions (itinerary_days it))
               = map fallback_entry
                   (take m [numbered_attraction 1, numbered_attraction 2, numbered_attraction 3,
                            numbered_attraction 4, numbered_attraction 5, numbered_attraction 6]))"
proof -
  let ?E = "sample_env [] []"
  let ?atts = "map numbered_attraction [1..9]"
  have d: "map_of goa_preferences ''days'' = Some (PInt 3)" by (simp add: goa_preferences_def)
  have r: "str_contains ''relaxed'' (str_lower ''Relaxed pace'')" by (simp add: str_eval)
  have p: "\<not> str_contains ''relaxed'' (str_lower ''PACKED'') \<and> str_contains ''packed'' (str_lower ''PACKED'')"
    by (simp add: str_eval)
  have s: "\<not> str_contains ''relaxed'' (str_lower ''standard'') \<and> \<not> str_contains ''packed'' (str_lower ''standard'')"
    by (simp add: str_eval)
  have pos: "(1::int) \<le> 3" by simp
  note spec = plan_itinerary_truncation_spec [OF d pos refl refl refl refl]
  have a: "style_per_day (Some ''Relaxed pace'') = 2"
    using r spec [where style = "Some ''Relaxed pace''" and env = ?E and attractions = ?atts and sent = "[]", THEN conjunct1] by simp
  have b: "style_per_day (Some ''PACKED'') = 4"
    using p spec [where style = "Some ''PACKED''" and env = ?E and attractions = ?atts and sent = "[]", THEN conjunct1] by simp
  have c: "style_per_day (Some ''standard'') = 3"
    using s spec [where style = "Some ''standard''" and env = ?E and attractions = ?atts and sent = "[]", THEN conjunct1] by simp
  have "snd (plan_itinerary ?E goa_preferences ?atts (Some ''Relaxed pace'') [])
       = [] @ [ITINERARY_PLANNER_SYSTEM_PROMPT @ ''\<newline>\<newline>Data:\<newline>''
            @ json_dumps ?E (planner_input goa_preferences 3 (Some ''Relaxed pace'')
                (take (nat (max (3 * style_per_day (Some ''Relaxed pace'')) (3 * 2))) ?atts))]"
    using spec [where style = "Some ''Relaxed pace''" and env = ?E and attractions = ?atts and sent = "[]", THEN conjunct2, THEN conjunct2,
        THEN conjunct2, THEN conjunct1]
    by simp
  then have e: "snd (plan_itinerary ?E goa_preferences ?atts (Some ''Relaxed pace'') [])
       = [ITINERARY_PLANNER_SYSTEM_PROMPT @ ''\<newline>\<newline>Data:\<newline>''
            @ json_dumps ?E
                (planner_input goa_preferences 3 (Some ''Relaxed pace'')
                   [numbered_attraction 1, numbered_attraction 2, numbered_attraction 3,
                    numbered_attraction 4, numbered_attraction 5, numbered_attraction 6])]"
    using a by (simp add: nine_attractions)
  have f: "\<And>p. json_loads ?E (llm_invoke ?E [] p) = None"
    by (simp add: sample_env_def)
  have "\<exists>it m. fst (plan_itinerary ?E goa_preferences ?atts (Some ''Relaxed pace'') []) = Inr it
           \<and> concat (map day_attractions (itinerary_days it))
               = map fallback_entry
                   (take m (take (nat (max (3 * style_per_day (Some ''Relaxed pace'')) (3 * 2))) ?atts))"
    by (rule spec [where style = "Some ''Relaxed pace''" and env = ?E and attractions = ?atts and sent = "[]",
        THEN conjunct2, THEN conjunct2, THEN conjunct2, THEN conjunct2, THEN conjunct2, THEN conjunct2,
        THEN mp, OF f])
  then have g: "\<exists>it m. fst (plan_itinerary ?E goa_preferences ?atts (Some ''Relaxed pace'') []) = Inr it
           \<and> concat (map day_attractions (itinerary_days it))
               = map fallback_entry
                   (take m [numbered_attraction 1, numbered_attraction 2, numbered_attraction 3,
                            numbered_attraction 4, numbered_attraction 5, numbered_attraction 6])"
    using a by (simp add: nine_attractions)
  show ?thesis using a b c e g by blast
qed

text \<open>
  C2. For a day count \<open>d \<ge> 1\<close>, a destination text and the truncated candidate list \<open>c\<close>
  of length \<open>n\<close>: when the model's answer fails to parse, the itinerary is the fallback
  with \<open>per_day = max 1 (n div d)\<close>; it has exactly \<open>d\<close> days, numbered 1 to \<open>d\<close> in
  order; day \<open>i\<close> is titled "Day i in destination" and holds the \<open>i\<close>-th consecutive chunk
  of \<open>per_day\<close> candidates of \<open>c\<close>, in ranked order, each with name, city, state,
  typical\_duration\_hours, cost\_level and empty notes. For \<open>n = 9\<close> and \<open>d = 3\<close> the
  chunks are three lists of three whose concatenation is \<open>c\<close>.
\<close>

theorem plan_itinerary_fallback_spec:
  assumes "map_of preferences ''days'' = Some (PInt d)"
      and "1 \<le> d"
      and "map_of preferences ''destination'' = Some (PStr destination)"
      and "c = take (nat (max (d * style_per_day style) (d * 2))) attractions"
      and "prompt = ITINERARY_PLANNER_SYSTEM_PROMPT @ ''\<newline>\<newline>Data:\<newline>''
                     @ json_dumps env (planner_input preferences d style c)"
      and "json_loads env (llm_invoke env sent prompt) = None"
      and "per_day = max 1 (length c div nat d)"
  shows "plan_itinerary env preferences attractions style sent =
           (Inr (PDict [(''days'', PList (map
              (\<lambda>i. PDict [(''day'', PInt i),
                           (''title'', PStr (''Day '' @ str_of_int i @ '' in '' @ destination)),
                           (''attractions'', PList (map
                              (\<lambda>a. PDict [(''name'', PStr (name a)),
                                           (''city'', PStr (city a)),
                                           (''state'', PStr (state a)),
                                           (''typical_duration_hours'', PInt (typical_duration_hours a)),
                                           (''cost_level'', PStr (cost_level a)),
                                           (''notes'', PStr [])])
                              (take per_day (drop (nat (i - 1) * per_day) c))))])
              [1..d]))]),
            sent @ [prompt])
       \<and> length [1..d] = nat d
       \<and> (length c = 9 \<and> d = 3 \<longrightarrow>
            map (\<lambda>i. take per_day (drop (nat (i - 1) * per_day) c)) [1..d]
              = [take 3 c, take 3 (drop 3 c), take 3 (drop 6 c)]
            \<and> take 3 c @ take 3 (drop 3 c) @ take 3 (drop 6 c) = c)"
proof -
  have obj: "\<And>i atts. fallback_day_obj env preferences i atts =
      PDict [(''day'', PInt i),
             (''title'', PStr (''Day '' @ str_of_int i @ '' in '' @ destination)),
             (''attractions'', PList (map
                (\<lambda>a. PDict [(''name'', PStr (name a)),
                             (''city'', PStr (city a)),
                             (''state'', PStr (state a)),
                             (''typical_duration_hours'', PInt (typical_duration_hours a)),
                             (''cost_level'', PStr (cost_level a)),
                             (''notes'', PStr [])]) atts))]"
    using assms(3) by (simp add: fallback_day_obj_def dict_get_Some py_format_def fallback_entry_def)
  have main: "plan_itinerary env preferences attractions style sent =
           (Inr (PDict [(''days'', PList (map (\<lambda>i. fallback_day_obj env preferences i
                                                   (take per_day (drop (nat (i - 1) * per_day) c)))
                                              [1..d]))]),
            sent @ [prompt])"
    using assms(1,2,4,5,6,7) by (rule plan_itinerary_fallback)
  have len: "length [1..d] = nat d" by simp
  have nine: "length c = 9 \<and> d = 3 \<longrightarrow>
            map (\<lambda>i. take per_day (drop (nat (i - 1) * per_day) c)) [1..d]
              = [take 3 c, take 3 (drop 3 c), take 3 (drop 6 c)]
            \<and> take 3 c @ take 3 (drop 3 c) @ take 3 (drop 6 c) = c"
  proof
    assume h: "length c = 9 \<and> d = 3"
    then have p: "per_day = 3" using assms(7) by simp
    have u: "[1..d] = [1, 2, 3]" using h by (simp add: upto_rec1)
    have "take 3 c @ take 3 (drop 3 c) @ take 3 (drop 6 c) = take 9 c"
      using take_add [of 3 3 c] take_add [of 6 3 c] by simp
    then have "take 3 c @ take 3 (drop 3 c) @ take 3 (drop 6 c) = c" using h by simp
    then show "map (\<lambda>i. take per_day (drop (nat (i - 1) * per_day) c)) [1..d]
              = [take 3 c, take 3 (drop 3 c), take 3 (drop 6 c)]
            \<and> take 3 c @ take 3 (drop 3 c) @ take 3 (drop 6 c) = c"
      using p u by simp
  qed
  show ?thesis using main len nine by (simp only: obj) 
qed

theorem plan_itinerary_fallback_spec_witness:
  "fst (plan_itinerary (sample_env [] []) goa_preferences (map numbered_attraction [1..9])
          (Some ''standard'') []) =
     Inr (PDict [(''days'', PList
       [PDict [(''day'', PInt 1), (''title'', PStr ''Day 1 in Goa''),
               (''attractions'', PList (map fallback_entry
                  [numbered_attraction 1, numbered_attraction 2, numbered_attraction 3]))],
        PDict [(''day'', PInt 2), (''title'', PStr ''Day 2 in Goa''),
               (''attractions'', PList (map fallback_entry
                  [numbered_attraction 4, numbered_attraction 5, numbered_attraction 6]))],
        PDict [(''day'', PInt 3), (''title'', PStr ''Day 3 in Goa''),
               (''attractions'', PList (map fallback_entry
                  [numbered_attraction 7, numbered_attraction 8, numbered_attraction 9]))]])])"
proof -
  let ?atts = "map numbered_attraction [1..9]"
  let ?prompt = "ITINERARY_PLANNER_SYSTEM_PROMPT @ ''\<newline>\<newline>Data:\<newline>''
                     @ json_dumps (sample_env [] []) (planner_input goa_preferences 3 (Some ''standard'') ?atts)"
  have d: "map_of goa_preferences ''days'' = Some (PInt 3)" by (simp add: goa_preferences_def)
  have dest: "map_of goa_preferences ''destination'' = Some (PStr ''Goa'')"
    by (simp add: goa_preferences_def)
  have c: "?atts = take (nat (max (3 * style_per_day (Some ''standard'')) (3 * 2))) ?atts"
    by (simp add: style_standard)
  have f: "json_loads (sample_env [] []) (llm_invoke (sample_env [] []) [] ?prompt) = None"
    by (simp add: sample_env_def)
  have p: "(3::nat) = max 1 (length ?atts div nat 3)" by simp
  have u: "[1..3] = [1, 2, 3]" by (simp add: upto_rec1)
  show ?thesis
    using plan_itinerary_fallback_spec [OF d _ dest c refl f p]
    by (simp add: u nine_attractions fallback_entry_def str_of_int_def digits_of_nat.simps)
qed

text \<open>
  C10. In the fallback, for a truncated candidate list \<open>c\<close> of length \<open>n\<close> and \<open>d \<ge> 1\<close>:
  exactly \<open>d\<close> days are produced; when \<open>n < d\<close>, day \<open>i + 1\<close> holds the one candidate
  \<open>c ! i\<close> for \<open>i < n\<close> and nothing for \<open>n \<le> i < d\<close>; the days together hold exactly the
  first \<open>d * max 1 (n div d)\<close> candidates; when \<open>n \<ge> d\<close> these are the first
  \<open>n - n mod d\<close>, so the last \<open>n mod d\<close> candidates are in no day.
\<close>

theorem plan_itinerary_fallback_coverage:
  assumes "map_of preferences ''days'' = Some (PInt d)"
      and "1 \<le> d"
      and "c = take (nat (max (d * style_per_day style) (d * 2))) attractions"
      and "prompt = ITINERARY_PLANNER_SYSTEM_PROMPT @ ''\<newline>\<newline>Data:\<newline>''
                     @ json_dumps env (planner_input preferences d style c)"
      and "json_loads env (llm_invoke env sent prompt) = None"
      and "n = length c"
      and "per_day = max 1 (n div nat d)"
  shows "\<exists>it. fst (plan_itinerary env preferences attractions style sent) = Inr it
           \<and> length (itinerary_days it) = nat d
           \<and> (n < nat d \<longrightarrow>
                (\<forall>i < nat d. day_attractions (itinerary_days it ! i)
                              = (if i < n then [fallback_entry (c ! i)] else [])))
           \<and> concat (map day_attractions (itinerary_days it))
                = map fallback_entry (take (nat d * per_day) c)
           \<and> (nat d \<le> n \<longrightarrow>
                  nat d * per_day = n - n mod nat d
                \<and> concat (map day_attractions (itinerary_days it))
                    = map fallback_entry (take (n - n mod nat d) c)
                \<and> length (drop (n - n mod nat d) c) = n mod nat d)"
proof -
  let ?days = "map (\<lambda>i. fallback_day_obj env preferences i
                          (take per_day (drop (nat (i - 1) * per_day) c))) [1..d]"
  let ?it = "PDict [(''days'', PList ?days)]"
  have pd: "per_day = max 1 (length c div nat d)" using assms(6,7) by simp
  have r: "fst (plan_itinerary env preferences attractions style sent) = Inr ?it"
    using plan_itinerary_fallback [OF assms(1-5) pd] by simp
  have len: "length (itinerary_days ?it) = nat d"
    by (simp add: itinerary_days_fallback)
  have cover: "concat (map day_attractions (itinerary_days ?it))
                = map fallback_entry (take (nat d * per_day) c)"
    by (simp only: itinerary_days_fallback fallback_attractions_concat)
  have few: "n < nat d \<longrightarrow>
                (\<forall>i < nat d. day_attractions (itinerary_days ?it ! i)
                              = (if i < n then [fallback_entry (c ! i)] else []))"
  proof (intro impI allI)
    fix i
    assume lt: "n < nat d" and i: "i < nat d"
    then have one: "per_day = 1" using assms(7) by simp
    have "itinerary_days ?it ! i =
            fallback_day_obj env preferences (1 + int i) (take per_day (drop (i * per_day) c))"
      using i by (simp only: itinerary_days_fallback fallback_days_as_map) simp
    then show "day_attractions (itinerary_days ?it ! i)
                 = (if i < n then [fallback_entry (c ! i)] else [])"
      using one assms(6) by (simp add: day_attractions_fallback take_one_drop)
  qed
  have many: "nat d \<le> n \<longrightarrow>
                  nat d * per_day = n - n mod nat d
                \<and> concat (map day_attractions (itinerary_days ?it))
                    = map fallback_entry (take (n - n mod nat d) c)
                \<and> length (drop (n - n mod nat d) c) = n mod nat d"
  proof
    assume ge: "nat d \<le> n"
    have dpos: "0 < nat d" using assms(2) by simp
    then have "1 \<le> n div nat d" using ge by (simp add: div_greater_zero_iff Suc_le_eq)
    then have "per_day = n div nat d" using assms(7) by simp
    then have m: "nat d * per_day = n - n mod nat d"
      by (simp add: minus_mod_eq_mult_div)
    have "n mod nat d \<le> n" by simp
    then have "length (drop (n - n mod nat d) c) = n mod nat d" using assms(6) by simp
    then show "nat d * per_day = n - n mod nat d
                \<and> concat (map day_attractions (itinerary_days ?it))
                    = map fallback_entry (take (n - n mod nat d) c)
                \<and> length (drop (n - n mod nat d) c) = n mod nat d"
      using m cover by simp
  qed
  show ?thesis using r len few cover many by blast
qed

theorem plan_itinerary_fallback_coverage_witness:
  "(\<exists>it. fst (plan_itinerary (sample_env [] []) goa_preferences
              [numbered_attraction 1, numbered_attraction 2] (Some ''standard'') []) = Inr it
        \<and> map day_attractions (itinerary_days it)
            = [[fallback_entry (numbered_attraction 1)], [fallback_entry (numbered_attraction 2)], []])
   \<and> (\<exists>it. fst (plan_itinerary (sample_env [] []) goa_preferences
              (map numbered_attraction [1, 2, 3, 4, 5]) (Some ''standard'') []) = Inr it
        \<and> length (itinerary_days it) = 3
        \<and> concat (map day_attractions (itinerary_days it))
            = map fallback_entry (map numbered_attraction [1, 2, 3]))"
proof -
  let ?E = "sample_env [] []"
  let ?two = "[numbered_attraction 1, numbered_attraction 2]"
  let ?five = "map numbered_attraction [1, 2, 3, 4, 5]"
  have d: "map_of goa_preferences ''days'' = Some (PInt 3)" by (simp add: goa_preferences_def)
  have c2: "?two = take (nat (max (3 * style_per_day (Some ''standard'')) (3 * 2))) ?two"
    by (simp add: style_standard)
  have c5: "?five = take (nat (max (3 * style_per_day (Some ''standard'')) (3 * 2))) ?five"
    by (simp add: style_standard)
  have f: "\<And>p. json_loads ?E (llm_invoke ?E [] p) = None"
    by (simp add: sample_env_def)
  have p2: "(1::nat) = max 1 (2 div nat 3)" by simp
  have p5: "(1::nat) = max 1 (5 div nat 3)" by simp
  have n2: "(2::nat) = length ?two" by simp
  have n5: "(5::nat) = length ?five" by simp
  from plan_itinerary_fallback_coverage [OF d _ c2 refl f n2 p2]
  obtain it where r: "fst (plan_itinerary ?E goa_preferences ?two (Some ''standard'') []) = Inr it"
    and l: "length (itinerary_days it) = 3"
    and e: "\<forall>i < 3. day_attractions (itinerary_days it ! i) = (if i < 2 then [fallback_entry (?two ! i)] else [])"
    by auto
  have "map day_attractions (itinerary_days it)
          = map day_attractions [itinerary_days it ! 0, itinerary_days it ! 1, itinerary_days it ! 2]"
    using list3_nth [OF l] by simp
  then have "map day_attractions (itinerary_days it)
            = [[fallback_entry (numbered_attraction 1)], [fallback_entry (numbered_attraction 2)], []]"
    using e by simp
  then have first: "\<exists>it. fst (plan_itinerary ?E goa_preferences ?two (Some ''standard'') []) = Inr it
        \<and> map day_attractions (itinerary_days it)
            = [[fallback_entry (numbered_attraction 1)], [fallback_entry (numbered_attraction 2)], []]"
    using r by (intro exI [of _ it]) simp
  from plan_itinerary_fallback_coverage [OF d _ c5 refl f n5 p5]
  obtain it' where r': "fst (plan_itinerary ?E goa_preferences ?five (Some ''standard'') []) = Inr it'"
    and l': "length (itinerary_days it') = 3"
    and e': "concat (map day_attractions (itinerary_days it')) = map fallback_entry (take (nat 3 * 1) ?five)"
    by auto
  have "concat (map day_attractions (itinerary_days it')) = map fallback_entry (map numbered_attraction [1, 2, 3])"
    using e' by simp
  then have second: "\<exists>it. fst (plan_itinerary ?E goa_preferences ?five (Some ''standard'') []) = Inr it
        \<and> length (itinerary_days it) = 3
        \<and> concat (map day_attractions (itinerary_days it))
            = map fallback_entry (map numbered_attraction [1, 2, 3])"
    using r' l' by (intro exI [of _ it']) simp
  show ?thesis using first second by simp
qed

section \<open>Orchestrator\<close>

lemma plan_itinerary_returns:
  assumes "map_of preferences ''days'' = Some (PInt n)"
  shows "\<exists>it sent'. plan_itinerary env preferences attractions style sent = (Inr it, sent')"
  using assms
  by (simp add: plan_itinerary_def dict_get_Some Let_def invoke_def split: option.splits)

lemma estimate_cost_returns:
  assumes "map_of preferences ''days'' = Some (PInt n)"
      and "map_of preferences ''budget_level'' = Some (PStr b)"
  shows "\<exists>cost. estimate_cost preferences itinerary = Inr cost"
  using assms by (simp add: estimate_cost_def dict_get_Some Let_def)

lemma run_planning_pipeline_result:
  assumes ex: "fst (extract_preferences env user_input sent) = PDict extracted"
      and dest: "map_of extracted ''destination'' = Some (PStr dest0)"
      and days: "map_of extracted ''days'' = Some (PInt days0)"
      and bud: "map_of extracted ''budget_level'' = Some (PStr b)"
      and trip: "map_of extracted ''trip_type'' = Some (PStr tt)"
      and ints: "map_of extracted ''interests'' = Some (PList (map PStr interests))"
  shows "\<exists>r. fst (run_planning_pipeline env user_input explicit_destination explicit_days
                    itinerary_style sent) = Inr r
           \<and> map_of (result_preferences r) ''days'' =
               Some (if py_truthy explicit_days
                     then (case py_int explicit_days of Inr n \<Rightarrow> PInt n | Inl e \<Rightarrow> PInt days0)
                     else PInt days0)
           \<and> map_of (result_preferences r) ''destination'' =
               Some (PStr (if explicit_destination \<noteq> [] then explicit_destination else dest0))
           \<and> (\<forall>k. k \<noteq> ''days'' \<and> k \<noteq> ''destination'' \<and> k \<noteq> ''itinerary_style''
                  \<longrightarrow> map_of (result_preferences r) k = map_of extracted k)
           \<and> retrieve_attractions env (result_preferences r) 15 = Inr (result_attractions r)"
proof -
  obtain sent1 where e: "extract_preferences env user_input sent = (PDict extracted, sent1)"
    using ex by (cases "extract_preferences env user_input sent") simp
  let ?p1 = "if explicit_destination \<noteq> []
             then dict_set extracted ''destination'' (PStr explicit_destination) else extracted"
  let ?p2 = "if py_truthy explicit_days
             then (case py_int explicit_days of
                     Inr n \<Rightarrow> dict_set ?p1 ''days'' (PInt n)
                   | Inl e \<Rightarrow> ?p1)
             else ?p1"
  let ?p3 = "dict_set ?p2 ''itinerary_style'' (case itinerary_style of None \<Rightarrow> PNone | Some s \<Rightarrow> PStr s)"
  have d3: "map_of ?p3 ''days'' =
               Some (if py_truthy explicit_days
                     then (case py_int explicit_days of Inr n \<Rightarrow> PInt n | Inl e \<Rightarrow> PInt days0)
                     else PInt days0)"
    using days by (simp add: map_of_dict_set split: sum.splits)
  then obtain n where dn: "map_of ?p3 ''days'' = Some (PInt n)"
    by (simp split: if_splits sum.splits)
  have de3: "map_of ?p3 ''destination'' =
               Some (PStr (if explicit_destination \<noteq> [] then explicit_destination else dest0))"
    using dest by (simp add: map_of_dict_set split: sum.splits)
  have other: "\<forall>k. k \<noteq> ''days'' \<and> k \<noteq> ''destination'' \<and> k \<noteq> ''itinerary_style''
                  \<longrightarrow> map_of ?p3 k = map_of extracted k"
    by (simp add: map_of_dict_set split: sum.splits)
  have b3: "map_of ?p3 ''budget_level'' = Some (PStr b)" using other bud by simp
  have t3: "map_of ?p3 ''trip_type'' = Some (PStr tt)" using other trip by simp
  have i3: "map_of ?p3 ''interests'' = Some (PList (map PStr interests))" using other ints by simp
  obtain atts where ra: "retrieve_attractions env ?p3 15 = Inr atts"
    using retrieve_attractions_eq [OF de3 i3 t3 b3] by blast
  obtain it sent2 where pl: "plan_itinerary env ?p3 atts itinerary_style sent1 = (Inr it, sent2)"
    using plan_itinerary_returns [OF dn] by blast
  obtain cost where ec: "estimate_cost ?p3 it = Inr cost"
    using estimate_cost_returns [OF dn b3] by blast
  obtain sm sent3 where gs: "generate_summary_and_tips env ?p3 it cost sent2 = (sm, sent3)"
    by (cases "generate_summary_and_tips env ?p3 it cost sent2") simp
  have "run_planning_pipeline env user_input explicit_destination explicit_days itinerary_style sent
          = (Inr \<lparr> result_preferences = ?p3, result_attractions = atts, result_itinerary = it,
                   result_cost = cost, result_summary = sm \<rparr>, sent3)"
    unfolding run_planning_pipeline_def Let_def e
    by (simp only: prod.case pyval.case ra pl ec gs sum.case)
  then have "fst (run_planning_pipeline env user_input explicit_destination explicit_days
                    itinerary_style sent)
          = Inr \<lparr> result_preferences = ?p3, result_attractions = atts, result_itinerary = it,
                   result_cost = cost, result_summary = sm \<rparr>"
    by simp
  then show ?thesis using d3 de3 other ra
    by (intro exI [of _ "\<lparr> result_preferences = ?p3, result_attractions = atts, result_itinerary = it,
                   result_cost = cost, result_summary = sm \<rparr>"]) simp
qed

lemma run_planning_pipeline_ignored:
  assumes "\<not> py_truthy explicit_days \<or> (\<exists>e. py_int explicit_days = Inl e)"
  shows "run_planning_pipeline env user_input explicit_destination explicit_days itinerary_style sent
           = run_planning_pipeline env user_input explicit_destination PNone itinerary_style sent"
proof (cases "extract_preferences env user_input sent")
  case (Pair extracted sent1)
  show ?thesis
  proof (cases extracted)
    case (PDict preferences)
    from assms show ?thesis
    proof
      assume "\<not> py_truthy explicit_days"
      then show ?thesis by (simp add: run_planning_pipeline_def Pair PDict)
    next
      assume "\<exists>e. py_int explicit_days = Inl e"
      then obtain e where "py_int explicit_days = Inl e" by blast
      then show ?thesis by (simp add: run_planning_pipeline_def Pair PDict)
    qed
  qed (simp_all add: run_planning_pipeline_def Pair)
qed

lemma agra_search:
  "search_attractions (sample_env [] []) ''Agra'' [''beach'', ''nightlife''] 15
     = map attraction_of_doc [taj_mahal]"
  by (simp add: search_attractions_eq dest_tokens_def str_eval doc_matches_def sample_eval)

text \<open>
  C6, as stated, asks that the day-count override replace the extracted value only when
  it coerces to a positive integer. The code tests the override for truth and calls
  \<^verbatim>\<open>int\<close> on it; it makes no test of sign. The override -2 replaces the extracted 3 days.
\<close>

theorem run_planning_pipeline_counterexample:
  "fst (extract_preferences (sample_env [] []) ''A short trip'' []) =
     PDict [(''destination'', PStr ''Goa''),
            (''days'', PInt 3),
            (''budget_level'', PStr ''medium''),
            (''trip_type'', PStr ''friends''),
            (''interests'', PList [PStr ''beach'', PStr ''nightlife''])]
   \<and> py_truthy (PInt (- 2))
   \<and> py_int (PInt (- 2)) = Inr (- 2)
   \<and> \<not> (0 :: int) < - 2
   \<and> (case fst (run_planning_pipeline (sample_env [] []) ''A short trip'' [] (PInt (- 2))
                   (Some ''standard'') []) of
         Inr r \<Rightarrow> map_of (result_preferences r) ''days''
       | Inl e \<Rightarrow> None) = Some (PInt (- 2))"
proof -
  let ?E = "sample_env [] []"
  have e: "fst (extract_preferences ?E ''A short trip'' []) =
     PDict [(''destination'', PStr ''Goa''),
            (''days'', PInt 3),
            (''budget_level'', PStr ''medium''),
            (''trip_type'', PStr ''friends''),
            (''interests'', PList (map PStr [''beach'', ''nightlife'']))]"
    by (simp add: extract_preferences_eq sample_env_def default_preferences_def)
  have g: "map_of [(''destination'', PStr ''Goa''), (''days'', PInt 3),
            (''budget_level'', PStr ''medium''), (''trip_type'', PStr ''friends''),
            (''interests'', PList (map PStr [''beach'', ''nightlife'']))] ''destination'' = Some (PStr ''Goa'')"
    and d: "map_of [(''destination'', PStr ''Goa''), (''days'', PInt 3),
            (''budget_level'', PStr ''medium''), (''trip_type'', PStr ''friends''),
            (''interests'', PList (map PStr [''beach'', ''nightlife'']))] ''days'' = Some (PInt 3)"
    and b: "map_of [(''destination'', PStr ''Goa''), (''days'', PInt 3),
            (''budget_level'', PStr ''medium''), (''trip_type'', PStr ''friends''),
            (''interests'', PList (map PStr [''beach'', ''nightlife'']))] ''budget_level'' = Some (PStr ''medium'')"
    and t: "map_of [(''destination'', PStr ''Goa''), (''days'', PInt 3),
            (''budget_level'', PStr ''medium''), (''trip_type'', PStr ''friends''),
            (''interests'', PList (map PStr [''beach'', ''nightlife'']))] ''trip_type'' = Some (PStr ''friends'')"
    and i: "map_of [(''destination'', PStr ''Goa''), (''days'', PInt 3),
            (''budget_level'', PStr ''medium''), (''trip_type'', PStr ''friends''),
            (''interests'', PList (map PStr [''beach'', ''nightlife'']))] ''interests''
              = Some (PList (map PStr [''beach'', ''nightlife'']))"
    by simp_all
  from run_planning_pipeline_result [OF e g d b t i, of "[]" "PInt (- 2)" "Some ''standard''"]
  obtain r where "fst (run_planning_pipeline ?E ''A short trip'' [] (PInt (- 2)) (Some ''standard'') []) = Inr r"
    and "map_of (result_preferences r) ''days'' =
               Some (if py_truthy (PInt (- 2))
                     then (case py_int (PInt (- 2)) of Inr n \<Rightarrow> PInt n | Inl e \<Rightarrow> PInt 3)
                     else PInt 3)"
    by blast
  then have "(case fst (run_planning_pipeline ?E ''A short trip'' [] (PInt (- 2)) (Some ''standard'') []) of
         Inr r \<Rightarrow> map_of (result_preferences r) ''days''
       | Inl e \<Rightarrow> None) = Some (PInt (- 2))"
    by simp
  then show ?thesis using e by simp
qed

text \<open>
  C6 (amended). For an extracted preference record and any override value: the override
  replaces the extracted days when it is truthy and \<^verbatim>\<open>int\<close> accepts it (whatever the sign
  of the result); when it is falsy or \<^verbatim>\<open>int\<close> raises, the extracted days are kept and the
  pipeline runs exactly as with no override. A non-empty destination override replaces
  the extracted destination. The other extracted fields are kept, the pipeline returns
  its bundle, and the attractions of the bundle are those retrieved for the overridden
  preferences.
\<close>

theorem run_planning_pipeline_overrides:
  assumes "fst (extract_preferences env user_input sent) = PDict extracted"
      and "map_of extracted ''destination'' = Some (PStr dest0)"
      and "map_of extracted ''days'' = Some (PInt days0)"
      and "map_of extracted ''budget_level'' = Some (PStr b)"
      and "map_of extracted ''trip_type'' = Some (PStr tt)"
      and "map_of extracted ''interests'' = Some (PList (map PStr interests))"
  shows "(\<exists>r. fst (run_planning_pipeline env user_input explicit_destination explicit_days
                    itinerary_style sent) = Inr r
           \<and> map_of (result_preferences r) ''days'' =
               Some (if py_truthy explicit_days
                     then (case py_int explicit_days of Inr n \<Rightarrow> PInt n | Inl e \<Rightarrow> PInt days0)
                     else PInt days0)
           \<and> map_of (result_preferences r) ''destination'' =
               Some (PStr (if explicit_destination \<noteq> [] then explicit_destination else dest0))
           \<and> (\<forall>k. k \<noteq> ''days'' \<and> k \<noteq> ''destination'' \<and> k \<noteq> ''itinerary_style''
                  \<longrightarrow> map_of (result_preferences r) k = map_of extracted k)
           \<and> retrieve_attractions env (result_preferences r) 15 = Inr (result_attractions r))
       \<and> (\<not> py_truthy explicit_days \<or> (\<exists>e. py_int explicit_days = Inl e)
            \<longrightarrow> run_planning_pipeline env user_input explicit_destination explicit_days
                   itinerary_style sent
                = run_planning_pipeline env user_input explicit_destination PNone
                   itinerary_style sent)"
  using run_planning_pipeline_result [OF assms, of explicit_destination explicit_days itinerary_style]
    run_planning_pipeline_ignored [of explicit_days env user_input explicit_destination itinerary_style sent]
  by blast

theorem run_planning_pipeline_overrides_witness:
  "(\<exists>r. fst (run_planning_pipeline (sample_env [] []) ''A short trip'' [] (PStr ''three'')
               (Some ''standard'') []) = Inr r
        \<and> map_of (result_preferences r) ''days'' = Some (PInt 3)
        \<and> map_of (result_preferences r) ''destination'' = Some (PStr ''Goa''))
   \<and> (\<exists>r. fst (run_planning_pipeline (sample_env [] []) ''A short trip'' ''Agra'' (PStr '' 4 '')
               (Some ''standard'') []) = Inr r
        \<and> map_of (result_preferences r) ''days'' = Some (PInt 4)
        \<and> map_of (result_preferences r) ''destination'' = Some (PStr ''Agra'')
        \<and> map name (result_attractions r) = [''Taj Mahal''])
   \<and> run_planning_pipeline (sample_env [] []) ''A short trip'' [] (PStr ''three'') (Some ''standard'') []
       = run_planning_pipeline (sample_env [] []) ''A short trip'' [] PNone (Some ''standard'') []"
proof -
  let ?E = "sample_env [] []"
  have e: "fst (extract_preferences ?E ''A short trip'' []) =
     PDict [(''destination'', PStr ''Goa''),
            (''days'', PInt 3),
            (''budget_level'', PStr ''medium''),
            (''trip_type'', PStr ''friends''),
            (''interests'', PList (map PStr [''beach'', ''nightlife'']))]"
    by (simp add: extract_preferences_eq sample_env_def default_preferences_def)
  let ?x = "[(''destination'', PStr ''Goa''), (''days'', PInt 3),
            (''budget_level'', PStr ''medium''), (''trip_type'', PStr ''friends''),
            (''interests'', PList (map PStr [''beach'', ''nightlife'']))]"
  have g: "map_of ?x ''destination'' = Some (PStr ''Goa'')"
    and d: "map_of ?x ''days'' = Some (PInt 3)"
    and b: "map_of ?x ''budget_level'' = Some (PStr ''medium'')"
    and t: "map_of ?x ''trip_type'' = Some (PStr ''friends'')"
    and i: "map_of ?x ''interests'' = Some (PList (map PStr [''beach'', ''nightlife'']))"
    by simp_all
  note spec = run_planning_pipeline_overrides [OF e g d b t i]
  have three: "py_int (PStr ''three'') = Inl ValueError"
    by (simp add: int_of_str_def str_eval digit_groups_ok_def is_digit_def)
  have four: "py_int (PStr '' 4 '') = Inr 4"
    by (simp add: int_of_str_def str_eval digit_groups_ok_def is_digit_def digits_value_def)
  from spec [of "[]" "PStr ''three''" "Some ''standard''"]
  obtain r1 where r1: "fst (run_planning_pipeline ?E ''A short trip'' [] (PStr ''three'')
               (Some ''standard'') []) = Inr r1"
    and d1': "map_of (result_preferences r1) ''days'' =
               Some (if py_truthy (PStr ''three'')
                     then (case py_int (PStr ''three'') of Inr n \<Rightarrow> PInt n | Inl e \<Rightarrow> PInt 3)
                     else PInt 3)"
    and de1': "map_of (result_preferences r1) ''destination'' =
               Some (PStr (if ([]::string) \<noteq> [] then [] else ''Goa''))"
    by blast
  have d1: "map_of (result_preferences r1) ''days'' = Some (PInt 3)"
    using d1' three by simp
  have de1: "map_of (result_preferences r1) ''destination'' = Some (PStr ''Goa'')"
    using de1' by simp
  from spec [of "''Agra''" "PStr '' 4 ''" "Some ''standard''"]
  obtain r2 where r2: "fst (run_planning_pipeline ?E ''A short trip'' ''Agra'' (PStr '' 4 '')
               (Some ''standard'') []) = Inr r2"
    and d2': "map_of (result_preferences r2) ''days'' =
               Some (if py_truthy (PStr '' 4 '')
                     then (case py_int (PStr '' 4 '') of Inr n \<Rightarrow> PInt n | Inl e \<Rightarrow> PInt 3)
                     else PInt 3)"
    and de2': "map_of (result_preferences r2) ''destination'' =
               Some (PStr (if ''Agra'' \<noteq> [] then ''Agra'' else ''Goa''))"
    and o2: "\<forall>k. k \<noteq> ''days'' \<and> k \<noteq> ''destination'' \<and> k \<noteq> ''itinerary_style''
                  \<longrightarrow> map_of (result_preferences r2) k =
                      map_of [(''destination'', PStr ''Goa''),
                              (''days'', PInt 3),
                              (''budget_level'', PStr ''medium''),
                              (''trip_type'', PStr ''friends''),
                              (''interests'', PList (map PStr [''beach'', ''nightlife'']))] k"
    and a2: "retrieve_attractions ?E (result_preferences r2) 15 = Inr (result_attractions r2)"
    by blast
  have d2: "map_of (result_preferences r2) ''days'' = Some (PInt 4)"
    using d2' four by simp
  have de2: "map_of (result_preferences r2) ''destination'' = Some (PStr ''Agra'')"
    using de2' by simp
  have i2: "map_of (result_preferences r2) ''interests'' = Some (PList (map PStr [''beach'', ''nightlife'']))"
    using o2 by simp
  have t2: "map_of (result_preferences r2) ''trip_type'' = Some (PStr ''friends'')"
    using o2 by simp
  have b2: "map_of (result_preferences r2) ''budget_level'' = Some (PStr ''medium'')"
    using o2 by simp
  have "result_attractions r2 =
          py_sort_reverse score
            (map (\<lambda>a. add_score a (score_attraction a [''beach'', ''nightlife''] ''friends'' ''medium''))
                 (search_attractions ?E ''Agra'' [''beach'', ''nightlife''] 15))"
    using a2 retrieve_attractions_eq [OF de2 i2 t2 b2, of ?E 15] by simp
  then have n2: "map name (result_attractions r2) = [''Taj Mahal'']"
    by (simp add: agra_search py_sort_reverse_def add_score_def attraction_of_doc_def taj_mahal_def)
  have first: "\<exists>r. fst (run_planning_pipeline ?E ''A short trip'' [] (PStr ''three'')
               (Some ''standard'') []) = Inr r
        \<and> map_of (result_preferences r) ''days'' = Some (PInt 3)
        \<and> map_of (result_preferences r) ''destination'' = Some (PStr ''Goa'')"
    using r1 d1 de1 by (intro exI [of _ r1]) simp
  have second: "\<exists>r. fst (run_planning_pipeline ?E ''A short trip'' ''Agra'' (PStr '' 4 '')
               (Some ''standard'') []) = Inr r
        \<and> map_of (result_preferences r) ''days'' = Some (PInt 4)
        \<and> map_of (result_preferences r) ''destination'' = Some (PStr ''Agra'')
        \<and> map name (result_attractions r) = [''Taj Mahal'']"
    using r2 d2 de2 n2 by (intro exI [of _ r2]) simp
  have third: "run_planning_pipeline ?E ''A short trip'' [] (PStr ''three'') (Some ''standard'') []
       = run_planning_pipeline ?E ''A short trip'' [] PNone (Some ''standard'') []"
    using spec [of "[]" "PStr ''three''" "Some ''standard''", THEN conjunct2] three by blast
  show ?thesis using first second third by blast
qed

end
